theory Spec2Isabelle
  imports Complex_Main
begin

section \<open>Python values and primitives\<close>

text \<open>
  The source is \<^verbatim>\<open>methods/abstractdiffusion.py\<close>. Python integers are unbounded and
  are modelled as \<^typ>\<open>int\<close>. Python floats are modelled as exact rationals
  (\<^typ>\<open>rat\<close>): every statement below about a value that the source computes in
  floating point is a statement about the exactly computed quotient or product.
  Exceptions are values of \<open>py_error\<close>, carried in the left summand.
\<close>

datatype py_error =
  ZeroDivisionError | AssertionError | TypeError | KeyError | IndexError
  | ValueError | AttributeError | RuntimeError

text \<open>\<^verbatim>\<open>a / b\<close> on two integers: true division, raising on a zero divisor.\<close>

definition py_truediv :: "int \<Rightarrow> int \<Rightarrow> py_error + rat" where
  "py_truediv a b = (if b = 0 then Inl ZeroDivisionError else Inr (of_int a / of_int b))"

text \<open>\<^verbatim>\<open>int(q)\<close> on a float: truncation towards zero.\<close>

definition py_int :: "rat \<Rightarrow> int" where
  "py_int q = (if 0 \<le> q then \<lfloor>q\<rfloor> else \<lceil>q\<rceil>)"

text \<open>\<^verbatim>\<open>range(n)\<close>: empty when \<open>n \<le> 0\<close>.\<close>

definition py_range :: "int \<Rightarrow> int list" where
  "py_range n = map int [0..<nat n]"

text \<open>\<^verbatim>\<open>range(start, stop, step)\<close> for a positive step, by the number of its elements.\<close>

definition py_range3 :: "int \<Rightarrow> int \<Rightarrow> int \<Rightarrow> int list" where
  "py_range3 start stop step =
     map (\<lambda>k. start + int k * step) [0..<nat (- ((start - stop) div step))]"

text \<open>
  \<^verbatim>\<open>xs[start:stop]\<close>: a negative bound counts from the end, and both bounds are
  clipped to the list.
\<close>

definition py_slice_bound :: "nat \<Rightarrow> int \<Rightarrow> nat" where
  "py_slice_bound n i = (if i < 0 then nat (max 0 (int n + i)) else min n (nat i))"

definition py_slice :: "'a list \<Rightarrow> int \<Rightarrow> int \<Rightarrow> 'a list" where
  "py_slice xs start stop =
     (let s = py_slice_bound (length xs) start; e = py_slice_bound (length xs) stop
      in take (e - s) (drop s xs))"

text \<open>A \<^verbatim>\<open>for\<close> loop whose body may raise: the first exception ends the loop.\<close>

primrec for_each :: "'a list \<Rightarrow> ('a \<Rightarrow> 's \<Rightarrow> py_error + 's) \<Rightarrow> 's \<Rightarrow> py_error + 's" where
  "for_each [] body s = Inr s"
| "for_each (x # xs) body s =
     (case body x s of Inl e \<Rightarrow> Inl e | Inr s' \<Rightarrow> for_each xs body s')"

section \<open>BBox\<close>

text \<open>
  \<^verbatim>\<open>class BBox\<close>: the fields \<^verbatim>\<open>x, y, w, h\<close>; \<^verbatim>\<open>box\<close> and \<^verbatim>\<open>slice\<close> are
  derived from them at construction.
\<close>

record bbox =
  bbox_x :: int
  bbox_y :: int
  bbox_w :: int
  bbox_h :: int

definition BBox :: "int \<Rightarrow> int \<Rightarrow> int \<Rightarrow> int \<Rightarrow> bbox" where
  "BBox x y w h = \<lparr>bbox_x = x, bbox_y = y, bbox_w = w, bbox_h = h\<rparr>"

text \<open>\<^verbatim>\<open>self.box = [x, y, x+w, y+h]\<close>\<close>

definition bbox_box :: "'a bbox_scheme \<Rightarrow> int list" where
  "bbox_box b = [bbox_x b, bbox_y b, bbox_x b + bbox_w b, bbox_y b + bbox_h b]"

text \<open>
  Membership of the cell in row \<open>r\<close>, column \<open>c\<close> in \<^verbatim>\<open>bbox.slice\<close>, the spatial
  slice \<^verbatim>\<open>[y:y+h, x:x+w]\<close>, for a box whose offsets are not negative (every box the
  source builds has such offsets).
\<close>

definition in_slice :: "'a bbox_scheme \<Rightarrow> nat \<Rightarrow> nat \<Rightarrow> bool" where
  "in_slice b r c \<longleftrightarrow>
     bbox_y b \<le> int r \<and> int r < bbox_y b + bbox_h b \<and>
     bbox_x b \<le> int c \<and> int c < bbox_x b + bbox_w b"

section \<open>Tile geometry: \<^verbatim>\<open>split_views\<close>\<close>

text \<open>
  The weight map \<^verbatim>\<open>count\<close> has shape \<^verbatim>\<open>(1, 1, h, w)\<close>; it is modelled by its
  \<open>h\<close> rows of \<open>w\<close> cells. \<^verbatim>\<open>torch.zeros\<close> refuses a negative dimension.
\<close>

definition torch_zeros :: "int \<Rightarrow> int \<Rightarrow> py_error + rat list list" where
  "torch_zeros h w =
     (if h < 0 \<or> w < 0 then Inl RuntimeError
      else Inr (replicate (nat h) (replicate (nat w) 0)))"

text \<open>
  \<^verbatim>\<open>count[bbox.slice] += self.get_global_weights()\<close>. The abstract method
  \<^verbatim>\<open>get_global_weights\<close> is a parameter \<open>gw\<close>: the value of the kernel at row \<open>i\<close>,
  column \<open>j\<close> of the tile (a constant function for a scalar kernel).
\<close>

definition add_weights :: "(nat \<Rightarrow> nat \<Rightarrow> rat) \<Rightarrow> bbox \<Rightarrow> rat list list \<Rightarrow> rat list list" where
  "add_weights gw b count =
     map (\<lambda>(r, row).
        map (\<lambda>(c, v).
           if in_slice b r c then v + gw (nat (int r - bbox_y b)) (nat (int c - bbox_x b)) else v)
          (enumerate 0 row))
       (enumerate 0 count)"

definition split_views ::
  "(nat \<Rightarrow> nat \<Rightarrow> rat) \<Rightarrow> int \<Rightarrow> int \<Rightarrow> int \<Rightarrow> int \<Rightarrow> int \<Rightarrow> py_error + (bbox list \<times> rat list list)" where
  "split_views gw w h tile_w tile_h overlap =
     (let non_overlap_width = tile_w - overlap;
          non_overlap_height = tile_h - overlap
      in case py_truediv (w - overlap) non_overlap_width of Inl e \<Rightarrow> Inl e | Inr qc \<Rightarrow>
         case py_truediv (h - overlap) non_overlap_height of Inl e \<Rightarrow> Inl e | Inr qr \<Rightarrow>
         let cols = \<lceil>qc\<rceil>;
             rows = \<lceil>qr\<rceil>;
             dx = (if cols > 1 then of_int (w - tile_w) / of_int (cols - 1) else (0::rat));
             dy = (if rows > 1 then of_int (h - tile_h) / of_int (rows - 1) else (0::rat))
         in case torch_zeros h w of Inl e \<Rightarrow> Inl e | Inr count0 \<Rightarrow>
            Inr (fold (\<lambda>row acc.
                   let y0 = py_int (of_int row * dy);
                       y = (if y0 + tile_h \<ge> h then h - tile_h else y0)
                   in fold (\<lambda>col (bbox_list, count).
                        let x0 = py_int (of_int col * dx);
                            x = (if x0 + tile_w \<ge> w then w - tile_w else x0);
                            bbox = BBox x y tile_w tile_h
                        in (bbox_list @ [bbox], add_weights gw bbox count))
                      (py_range cols) acc)
                 (py_range rows) ([], count0)))"

section \<open>The constructor \<^verbatim>\<open>TiledDiffusion.__init__\<close>\<close>

text \<open>
  Lines 101 to 106: the canvas in latent cells and the clamping of the requested tile
  size and overlap. The result is \<open>(w, h, tile_w, tile_h, overlap)\<close>.
\<close>

definition init_geometry :: "int \<Rightarrow> int \<Rightarrow> int \<Rightarrow> int \<Rightarrow> int \<Rightarrow> int \<times> int \<times> int \<times> int \<times> int" where
  "init_geometry p_width p_height tile_w0 tile_h0 overlap0 =
     (let w = p_width div 8;
          h = p_height div 8;
          tile_w = (if tile_w0 > w then w else tile_w0);
          tile_h = (if tile_h0 > h then h else tile_h0);
          min_tile_size = min tile_w tile_h;
          overlap1 = (if overlap0 \<ge> min_tile_size then min_tile_size - 4 else overlap0);
          overlap = (if overlap1 < 0 then 0 else overlap1)
      in (w, h, tile_w, tile_h, overlap))"

text \<open>
  Lines 134 to 140: the batching of the tiles. The result is
  \<open>(num_batches, self.tile_batch_size, batched_bboxes)\<close>. The loop slices with the
  parameter \<^verbatim>\<open>tile_batch_size\<close>, as the source does; the attribute
  \<^verbatim>\<open>self.tile_batch_size\<close> receives \<^verbatim>\<open>optimal_batch_size\<close>.
\<close>

definition init_batches :: "'a list \<Rightarrow> int \<Rightarrow> py_error + (int \<times> int \<times> 'a list list)" where
  "init_batches bboxes tile_batch_size =
     (case py_truediv (int (length bboxes)) tile_batch_size of Inl e \<Rightarrow> Inl e | Inr q1 \<Rightarrow>
      let num_batches = \<lceil>q1\<rceil>
      in case py_truediv (int (length bboxes)) num_batches of Inl e \<Rightarrow> Inl e | Inr q2 \<Rightarrow>
         let optimal_batch_size = \<lceil>q2\<rceil>
         in Inr (num_batches, optimal_batch_size,
                 fold (\<lambda>i batched_bboxes.
                        let start = i * tile_batch_size;
                            end' = min ((i + 1) * tile_batch_size) (int (length bboxes))
                        in batched_bboxes @ [py_slice bboxes start end'])
                      (py_range num_batches) []))"

section \<open>CustomBBox and the feather mask\<close>

datatype BlendMode = FOREGROUND | BACKGROUND

text \<open>
  The values the region configuration carries: booleans, numbers and strings.
\<close>

datatype py_val = PBool bool | PNum rat | PStr string

text \<open>Truthiness (\<^verbatim>\<open>not enable\<close>) and the numeric reading of a value in a comparison or a product.\<close>

definition py_truthy :: "py_val \<Rightarrow> bool" where
  "py_truthy v = (case v of PBool b \<Rightarrow> b | PNum q \<Rightarrow> q \<noteq> 0 | PStr s \<Rightarrow> s \<noteq> [])"

definition py_num :: "py_val \<Rightarrow> py_error + rat" where
  "py_num v = (case v of PBool b \<Rightarrow> Inr (if b then 1 else 0) | PNum q \<Rightarrow> Inr q | PStr s \<Rightarrow> Inl TypeError)"

text \<open>\<^verbatim>\<open>BlendMode(blend_mode)\<close>: the enumeration member with that value.\<close>

definition BlendMode_of :: "py_val \<Rightarrow> py_error + BlendMode" where
  "BlendMode_of v =
     (if v = PStr ''Foreground'' then Inr FOREGROUND
      else if v = PStr ''Background'' then Inr BACKGROUND
      else Inl ValueError)"

text \<open>
  \<^verbatim>\<open>mask[i, j] = v\<close> on a two-dimensional array: a negative index counts from the end,
  an index out of range raises.
\<close>

definition np_index :: "nat \<Rightarrow> int \<Rightarrow> py_error + nat" where
  "np_index n i =
     (let k = (if i < 0 then i + int n else i)
      in if 0 \<le> k \<and> k < int n then Inr (nat k) else Inl IndexError)"

definition np_set :: "rat list list \<Rightarrow> int \<Rightarrow> int \<Rightarrow> rat \<Rightarrow> py_error + rat list list" where
  "np_set msk i j v =
     (case np_index (length msk) i of Inl e \<Rightarrow> Inl e | Inr r \<Rightarrow>
      case np_index (length (msk ! r)) j of Inl e \<Rightarrow> Inl e | Inr c \<Rightarrow>
      Inr (msk[r := (msk ! r)[c := v]]))"

text \<open>
  \<^verbatim>\<open>CustomBBox.generate_feather_mask\<close>, on \<^verbatim>\<open>self.w\<close>, \<^verbatim>\<open>self.h\<close> and
  \<^verbatim>\<open>self.feather_ratio\<close>. \<^verbatim>\<open>np.ones\<close> refuses a negative dimension. The division
  \<^verbatim>\<open>dist / feather_radius\<close> is the fallible \<open>py_truediv\<close>.
\<close>

definition generate_feather_mask :: "int \<Rightarrow> int \<Rightarrow> rat \<Rightarrow> py_error + rat list list" where
  "generate_feather_mask w h feather_ratio =
     (if h < 0 \<or> w < 0 then Inl ValueError
      else
        let mask0 = replicate (nat h) (replicate (nat w) (1::rat));
            feather_radius = py_int (of_int (min (w div 2) (h div 2)) * feather_ratio)
        in for_each (py_range (h div 2))
             (\<lambda>i. for_each (py_range (w div 2))
                (\<lambda>j msk.
                   let dist = min i j
                   in if dist \<ge> feather_radius then Inr msk
                      else case py_truediv dist feather_radius of Inl e \<Rightarrow> Inl e | Inr q \<Rightarrow>
                        let weight = q ^ 2
                        in case np_set msk i j weight of Inl e \<Rightarrow> Inl e | Inr m1 \<Rightarrow>
                           case np_set m1 i (w - j - 1) weight of Inl e \<Rightarrow> Inl e | Inr m2 \<Rightarrow>
                           case np_set m2 (h - i - 1) j weight of Inl e \<Rightarrow> Inl e | Inr m3 \<Rightarrow>
                           np_set m3 (h - i - 1) (w - j - 1) weight))
             mask0)"

text \<open>
  \<^verbatim>\<open>class CustomBBox(BBox)\<close>. The attributes \<^verbatim>\<open>prompt\<close>, \<^verbatim>\<open>neg_prompt\<close> and
  \<^verbatim>\<open>extra_network_data\<close> are \<^verbatim>\<open>None\<close> until \<^verbatim>\<open>prepare_prompt\<close> and are left out.
  The attribute \<^verbatim>\<open>feather_mask\<close> exists only for a foreground region.
\<close>

record custom_bbox = bbox +
  bbox_prompt_cache :: py_val
  bbox_neg_prompt_cache :: py_val
  bbox_blend_mode :: BlendMode
  bbox_feather_ratio :: rat
  bbox_feather_mask :: "rat list list option"

definition CustomBBox ::
  "int \<Rightarrow> int \<Rightarrow> int \<Rightarrow> int \<Rightarrow> py_val \<Rightarrow> py_val \<Rightarrow> BlendMode \<Rightarrow> py_val \<Rightarrow> py_error + custom_bbox" where
  "CustomBBox x y w h prompt neg_prompt mode feather_radio =
     (case py_num feather_radio of Inl e \<Rightarrow> Inl e | Inr fr \<Rightarrow>
      let ratio = max (min fr 1) 0
      in if mode = FOREGROUND then
           (case generate_feather_mask w h ratio of Inl e \<Rightarrow> Inl e | Inr m \<Rightarrow>
            Inr \<lparr>bbox_x = x, bbox_y = y, bbox_w = w, bbox_h = h,
                 bbox_prompt_cache = prompt, bbox_neg_prompt_cache = neg_prompt, bbox_blend_mode = mode,
                 bbox_feather_ratio = ratio, bbox_feather_mask = Some m\<rparr>)
         else
           Inr \<lparr>bbox_x = x, bbox_y = y, bbox_w = w, bbox_h = h,
                bbox_prompt_cache = prompt, bbox_neg_prompt_cache = neg_prompt, bbox_blend_mode = mode,
                bbox_feather_ratio = ratio, bbox_feather_mask = None\<rparr>)"

section \<open>Conditioning tensors and the coordinator's state\<close>

text \<open>
  A conditioning tensor of shape \<^verbatim>\<open>(B, L, D)\<close> is the list of its \<open>B\<close> entries, each
  the list of its \<open>L\<close> token vectors; a token vector is a value of an arbitrary type
  \<open>'v\<close>. \<^verbatim>\<open>shape[1]\<close> is read off the first entry, so it is \<open>0\<close> for an empty batch
  (a conditioning tensor of the prompt parser is never an empty batch).
\<close>

type_synonym 'v tensor = "'v list list"

definition shape0 :: "'a list \<Rightarrow> int" where
  "shape0 t = int (length t)"

definition shape1 :: "'a list list \<Rightarrow> int" where
  "shape1 t = (case t of [] \<Rightarrow> 0 | r # _ \<Rightarrow> int (length r))"

text \<open>
  The learned-conditioning objects of the prompt parser are opaque to the source, which
  only hands them to \<^verbatim>\<open>reconstruct_multicond_batch\<close> and
  \<^verbatim>\<open>reconstruct_cond_batch\<close> with the sampler's step. Such an object is modelled by
  what the parser reconstructs from it at each step.
\<close>

type_synonym conds_list = "(nat \<times> rat) list list"
type_synonym 'v multicond = "int \<Rightarrow> conds_list \<times> 'v tensor"
type_synonym 'v learned_cond = "int \<Rightarrow> 'v tensor"

definition reconstruct_multicond_batch :: "'v multicond \<Rightarrow> int \<Rightarrow> conds_list \<times> 'v tensor" where
  "reconstruct_multicond_batch c step = c step"

definition reconstruct_cond_batch :: "'v learned_cond \<Rightarrow> int \<Rightarrow> 'v tensor" where
  "reconstruct_cond_batch c step = c step"

text \<open>
  An image-conditioning tensor of shape \<^verbatim>\<open>(B, C, H, W)\<close> is the list of its \<open>B\<close>
  grids, each \<open>H\<close> rows of \<open>W\<close> cells; a cell (the \<open>C\<close> channels) has an arbitrary
  type \<open>'p\<close>. The conditioning a sampler passes is a dictionary with the list
  \<^verbatim>\<open>c_concat\<close>, or is not a dictionary.
\<close>

type_synonym 'p image = "'p list list list"

definition shape2 :: "'p image \<Rightarrow> int" where
  "shape2 im = (case im of [] \<Rightarrow> 0 | g # _ \<Rightarrow> int (length g))"

definition shape3 :: "'p image \<Rightarrow> int" where
  "shape3 im = (case im of [] \<Rightarrow> 0 | g # _ \<Rightarrow> (case g of [] \<Rightarrow> 0 | r # _ \<Rightarrow> int (length r)))"

datatype 'p org_cond = NotDict | Dict "'p image list"

text \<open>The attributes that \<^verbatim>\<open>kdiff_custom_forward\<close> creates when a step starts.\<close>

record ('v, 'p) kdiff_attrs =
  self_kdiff_step_bbox :: "int list"
  self_tensor :: "nat \<rightharpoonup> 'v tensor"
  self_uncond :: "nat \<rightharpoonup> 'v tensor"
  self_image_cond_in :: "nat \<rightharpoonup> 'p image option"
  self_real_tensor :: "'v tensor"
  self_real_uncond :: "'v tensor"
  self_a :: "int list"

text \<open>
  The attributes of a \<^verbatim>\<open>TiledDiffusion\<close> object that the modelled methods read or
  write. An attribute that a later method creates is an option, \<open>None\<close> while it does
  not exist. The sampler, the progress counters, the output buffer and the control
  tensors are left out, and so are the methods that only touch them.
\<close>

record ('v, 'p) tiled_diffusion =
  self_is_kdiff :: bool
  self_w :: int
  self_h :: int
  self_tile_w :: int
  self_tile_h :: int
  self_batched_bboxes :: "bbox list list"
  self_weights :: "rat list list"
  self_num_batches :: int
  self_tile_batch_size :: int
  self_custom_bboxes :: "custom_bbox list"
  self_draw_background :: bool
  self_pbar :: "int option"
  self_total_bboxes :: "int option"
  self_is_edit_model :: "bool option"
  self_kdiff_step :: int
  self_all_pos_cond :: "'v multicond option"
  self_all_neg_cond :: "'v learned_cond option"
  self_kdiff :: "('v, 'p) kdiff_attrs option"

definition TiledDiffusion ::
  "(nat \<Rightarrow> nat \<Rightarrow> rat) \<Rightarrow> string \<Rightarrow> int \<Rightarrow> int \<Rightarrow> int \<Rightarrow> int \<Rightarrow> int \<Rightarrow> int
     \<Rightarrow> py_error + ('v, 'p) tiled_diffusion" where
  "TiledDiffusion gw sampler_name p_width p_height tile_w0 tile_h0 overlap0 tile_batch_size =
     (case init_geometry p_width p_height tile_w0 tile_h0 overlap0 of
        (w, h, tile_w, tile_h, overlap) \<Rightarrow>
      case split_views gw w h tile_w tile_h overlap of Inl e \<Rightarrow> Inl e | Inr (bboxes, weights) \<Rightarrow>
      case init_batches bboxes tile_batch_size of Inl e \<Rightarrow> Inl e
      | Inr (num_batches, optimal_batch_size, batched_bboxes) \<Rightarrow>
        Inr \<lparr>self_is_kdiff = sampler_name \<notin> set [''DDIM'', ''PLMS'', ''UniPC''],
             self_w = w, self_h = h, self_tile_w = tile_w, self_tile_h = tile_h,
             self_batched_bboxes = batched_bboxes, self_weights = weights,
             self_num_batches = num_batches, self_tile_batch_size = optimal_batch_size,
             self_custom_bboxes = [], self_draw_background = True,
             self_pbar = None, self_total_bboxes = None, self_is_edit_model = None,
             self_kdiff_step = - 1, self_all_pos_cond = None, self_all_neg_cond = None,
             self_kdiff = None\<rparr>)"

section \<open>\<^verbatim>\<open>init\<close> and \<^verbatim>\<open>init_custom_bbox\<close>\<close>

text \<open>
  \<^verbatim>\<open>init\<close>, lines 143 to 152. The parameters are what the method reads from its
  surroundings: whether \<^verbatim>\<open>shared.sd_model.cond_stage_key\<close> is \<^verbatim>\<open>"edit"\<close>, the
  sampler's \<^verbatim>\<open>image_cfg_scale\<close> (\<open>None\<close> for \<^verbatim>\<open>None\<close>) and
  \<^verbatim>\<open>state.sampling_steps\<close>. The progress bar is modelled by its total.
\<close>

definition init :: "bool \<Rightarrow> rat option \<Rightarrow> int \<Rightarrow> ('v, 'p) tiled_diffusion \<Rightarrow> py_error + ('v, 'p) tiled_diffusion" where
  "init cond_stage_key_is_edit image_cfg_scale sampling_steps self =
     (let self1 =
            (if self_is_kdiff self \<and> self_is_edit_model self = None
             then self\<lparr>self_is_edit_model :=
                    Some (cond_stage_key_is_edit \<and> image_cfg_scale \<noteq> None \<and> image_cfg_scale \<noteq> Some 1)\<rparr>
             else self)
      in if self_pbar self1 = None then
           let total_bboxes =
                 (if self_draw_background self1 then self_num_batches self1 else 0)
                 + int (length (self_custom_bboxes self1))
           in if total_bboxes > 0
              then Inr (self1\<lparr>self_total_bboxes := Some total_bboxes,
                              self_pbar := Some (total_bboxes * sampling_steps)\<rparr>)
              else Inl AssertionError
         else Inr self1)"

text \<open>\<^verbatim>\<open>self.weights.zero_()\<close>\<close>

definition weights_zero :: "rat list list \<Rightarrow> rat list list" where
  "weights_zero t = map (map (\<lambda>_. 0)) t"

text \<open>
  \<^verbatim>\<open>init_custom_bbox\<close>. The loop runs over \<^verbatim>\<open>range(0, len(bbox_control_states) - 9, 9)\<close>,
  as the source has it. The conditions of line 211 are evaluated left to right and stop at
  the first that holds.
\<close>

definition init_custom_bbox ::
  "bool \<Rightarrow> py_val list \<Rightarrow> ('v, 'p) tiled_diffusion \<Rightarrow> py_error + ('v, 'p) tiled_diffusion" where
  "init_custom_bbox draw_background bbox_control_states self =
     (case for_each (py_range3 0 (int (length bbox_control_states) - 9) 9)
             (\<lambda>i custom_bboxes.
                case py_slice bbox_control_states i (i + 9) of
                  [enable, x, y, w, h, p, neg, blend_mode, feather_ratio] \<Rightarrow>
                    if \<not> py_truthy enable then Inr custom_bboxes
                    else case py_num x of Inl e \<Rightarrow> Inl e | Inr xq \<Rightarrow>
                    if xq \<ge> 1 then Inr custom_bboxes
                    else case py_num y of Inl e \<Rightarrow> Inl e | Inr yq \<Rightarrow>
                    if yq \<ge> 1 then Inr custom_bboxes
                    else case py_num w of Inl e \<Rightarrow> Inl e | Inr wq \<Rightarrow>
                    if wq \<le> 0 then Inr custom_bboxes
                    else case py_num h of Inl e \<Rightarrow> Inl e | Inr hq \<Rightarrow>
                    if hq \<le> 0 then Inr custom_bboxes
                    else
                      let x1 = py_int (xq * of_int (self_w self));
                          y1 = py_int (yq * of_int (self_h self));
                          w1 = \<lceil>wq * of_int (self_w self)\<rceil>;
                          h1 = \<lceil>hq * of_int (self_h self)\<rceil>;
                          x2 = max 0 x1;
                          y2 = max 0 y1;
                          w2 = min (self_w self - x2) w1;
                          h2 = min (self_h self - y2) h1
                      in case BlendMode_of blend_mode of Inl e \<Rightarrow> Inl e | Inr mode \<Rightarrow>
                         case CustomBBox x2 y2 w2 h2 p neg mode feather_ratio of Inl e \<Rightarrow> Inl e
                         | Inr bbox_obj \<Rightarrow> Inr (custom_bboxes @ [bbox_obj])
                | _ \<Rightarrow> Inl ValueError)
             []
      of Inl e \<Rightarrow> Inl e
      | Inr custom_bboxes \<Rightarrow>
          if length custom_bboxes = 0 then Inr (self\<lparr>self_custom_bboxes := custom_bboxes\<rparr>)
          else Inr (self\<lparr>self_custom_bboxes := custom_bboxes,
                         self_draw_background := draw_background,
                         self_weights :=
                           (if \<not> draw_background then weights_zero (self_weights self) else self_weights self)\<rparr>))"

text \<open>
  A well-typed configuration entry, as the user interface produces it, and the nine
  values it contributes to the flat sequence.
\<close>

record region_tuple =
  rt_enable :: bool
  rt_x :: rat
  rt_y :: rat
  rt_w :: rat
  rt_h :: rat
  rt_prompt :: string
  rt_neg_prompt :: string
  rt_blend_mode :: BlendMode
  rt_feather_ratio :: rat

definition BlendMode_value :: "BlendMode \<Rightarrow> string" where
  "BlendMode_value m = (case m of FOREGROUND \<Rightarrow> ''Foreground'' | BACKGROUND \<Rightarrow> ''Background'')"

definition flatten_tuple :: "region_tuple \<Rightarrow> py_val list" where
  "flatten_tuple t =
     [PBool (rt_enable t), PNum (rt_x t), PNum (rt_y t), PNum (rt_w t), PNum (rt_h t),
      PStr (rt_prompt t), PStr (rt_neg_prompt t), PStr (BlendMode_value (rt_blend_mode t)),
      PNum (rt_feather_ratio t)]"

definition flatten_tuples :: "region_tuple list \<Rightarrow> py_val list" where
  "flatten_tuples ts = concat (map flatten_tuple ts)"

text \<open>The tuples the specification keeps: enabled and of non-degenerate geometry.\<close>

definition tuple_kept :: "region_tuple \<Rightarrow> bool" where
  "tuple_kept t \<longleftrightarrow> rt_enable t \<and> rt_x t < 1 \<and> rt_y t < 1 \<and> rt_w t > 0 \<and> rt_h t > 0"

section \<open>Dispatch to the noise-prediction callback\<close>

text \<open>
  \<^verbatim>\<open>reconstruct_custom_cond\<close>; \<open>step\<close> is \<^verbatim>\<open>self.sampler.step\<close>.
\<close>

definition crop_image :: "'p image \<Rightarrow> int \<Rightarrow> int \<Rightarrow> int \<Rightarrow> int \<Rightarrow> 'p image" where
  "crop_image im y0 y1 x0 x1 = map (\<lambda>g. map (\<lambda>row. py_slice row x0 x1) (py_slice g y0 y1)) im"

definition reconstruct_custom_cond ::
  "('v, 'p) tiled_diffusion \<Rightarrow> int \<Rightarrow> 'p org_cond \<Rightarrow> 'v multicond \<Rightarrow> 'v learned_cond \<Rightarrow> 'a bbox_scheme
     \<Rightarrow> py_error + (conds_list \<times> 'v tensor \<times> 'v tensor \<times> 'p image option)" where
  "reconstruct_custom_cond self step org_cond custom_cond custom_uncond bbox =
     (case (case org_cond of
              NotDict \<Rightarrow> Inr None
            | Dict c_concat \<Rightarrow>
                (case c_concat of
                   [] \<Rightarrow> Inl IndexError
                 | image_cond # _ \<Rightarrow>
                     if shape2 image_cond = self_h self \<and> shape3 image_cond = self_w self
                     then Inr (Some (crop_image image_cond (bbox_box bbox ! 1) (bbox_box bbox ! 3)
                                       (bbox_box bbox ! 0) (bbox_box bbox ! 2)))
                     else Inr (Some image_cond)))
      of Inl e \<Rightarrow> Inl e
      | Inr image_conditioning \<Rightarrow>
          (case reconstruct_multicond_batch custom_cond step of
             (conds_list, tensor) \<Rightarrow>
               Inr (conds_list, tensor, reconstruct_cond_batch custom_uncond step, image_conditioning)))"

subsection \<open>Samplers of the k-diffusion family: \<^verbatim>\<open>kdiff_custom_forward\<close>\<close>

text \<open>
  What the method does to its surroundings is recorded as a list of events, in order:
  a call of \<^verbatim>\<open>set_control_tensor(bbox_id, repeat_size)\<close> and a call of
  \<^verbatim>\<open>forward_func(x, sigma, cond={"c_crossattn": ..., "c_concat": ...})\<close>. The callback
  is a function of the call's arguments. The latent \<^verbatim>\<open>x_tile\<close> and \<^verbatim>\<open>sigma_in\<close> are
  the lists of their batch entries.
\<close>

record ('x, 's, 'v, 'p) kdiff_call =
  call_x :: "'x list"
  call_sigma :: "'s list"
  c_crossattn :: "'v tensor list"
  c_concat :: "'p image option list"

datatype ('x, 's, 'v, 'p) event =
  SetControlTensor nat int
  | ForwardCall "('x, 's, 'v, 'p) kdiff_call"

text \<open>
  \<^verbatim>\<open>x_out[start:stop] = v\<close>: the value has the length of the slice or is broadcast from
  a single entry.
\<close>

definition torch_assign :: "'x list \<Rightarrow> int \<Rightarrow> int \<Rightarrow> 'x list \<Rightarrow> py_error + 'x list" where
  "torch_assign xs start stop v =
     (let s = py_slice_bound (length xs) start;
          e = max s (py_slice_bound (length xs) stop);
          n = e - s
      in if length v = n then Inr (take s xs @ v @ drop e xs)
         else if length v = 1 then Inr (take s xs @ replicate n (hd v) @ drop e xs)
         else Inl RuntimeError)"

text \<open>Lines 269 to 279: the reset when the sampler is at a new step.\<close>

definition kdiff_reset :: "int \<Rightarrow> ('v, 'p) tiled_diffusion \<Rightarrow> py_error + ('v, 'p) tiled_diffusion" where
  "kdiff_reset step self =
     (if self_kdiff_step self \<noteq> step then
        case self_all_pos_cond self of None \<Rightarrow> Inl AttributeError | Some all_pos_cond \<Rightarrow>
        case self_all_neg_cond self of None \<Rightarrow> Inl AttributeError | Some all_neg_cond \<Rightarrow>
        Inr (self\<lparr>self_kdiff_step := step,
                  self_kdiff := Some
                    \<lparr>self_kdiff_step_bbox = replicate (length (self_custom_bboxes self)) (- 1),
                     self_tensor = Map.empty,
                     self_uncond = Map.empty,
                     self_image_cond_in = Map.empty,
                     self_real_tensor = snd (reconstruct_multicond_batch all_pos_cond step),
                     self_real_uncond = reconstruct_cond_batch all_neg_cond step,
                     self_a = replicate (length (self_custom_bboxes self)) 0\<rparr>\<rparr>)
      else Inr self)"

text \<open>
  Lines 281 to 327: the first call for a region in a step. The result is the updated
  attributes and, when the method returns from this block, the events and the returned
  tensor.
\<close>

definition kdiff_first_touch ::
  "(('x::zero, 's, 'v, 'p) kdiff_call \<Rightarrow> 'x list) \<Rightarrow> bool \<Rightarrow> int \<Rightarrow> ('v, 'p) tiled_diffusion
     \<Rightarrow> ('v, 'p) kdiff_attrs \<Rightarrow> 'x list \<Rightarrow> 'p org_cond \<Rightarrow> 'v multicond \<Rightarrow> 'v learned_cond
     \<Rightarrow> nat \<Rightarrow> 'a bbox_scheme \<Rightarrow> 's list
     \<Rightarrow> py_error + (('v, 'p) kdiff_attrs \<times> (('x, 's, 'v, 'p) event list \<times> 'x list) option)" where
  "kdiff_first_touch forward_func batch_cond_uncond step self ks x_tile original_cond custom_cond
       uncond0 bbox_id bbox sigma_in =
     (if bbox_id \<ge> length (self_kdiff_step_bbox ks) then Inl IndexError
      else if self_kdiff_step_bbox ks ! bbox_id \<noteq> step then
        let ks1 = ks\<lparr>self_kdiff_step_bbox := (self_kdiff_step_bbox ks)[bbox_id := step]\<rparr>
        in case reconstruct_custom_cond self step original_cond custom_cond uncond0 bbox of
             Inl e \<Rightarrow> Inl e
           | Inr (_, tensor, uncond, image_cond_in) \<Rightarrow>
               if shape1 (self_real_tensor ks1) = shape1 (self_real_uncond ks1) then
                 if shape1 tensor = shape1 uncond \<and> batch_cond_uncond then
                   (case self_is_edit_model self of None \<Rightarrow> Inl AttributeError | Some is_edit_model \<Rightarrow>
                    let cond = (if \<not> is_edit_model then tensor @ uncond else tensor @ uncond @ uncond);
                        call = \<lparr>call_x = x_tile, call_sigma = sigma_in,
                                c_crossattn = [cond], c_concat = [image_cond_in]\<rparr>
                    in Inr (ks1, Some ([SetControlTensor bbox_id (shape0 x_tile), ForwardCall call],
                                       forward_func call)))
                 else
                   (case image_cond_in of None \<Rightarrow> Inl TypeError | Some img \<Rightarrow>
                    let x_out = map (\<lambda>_. 0) x_tile;
                        cond_size = shape0 tensor;
                        call1 = \<lparr>call_x = py_slice x_tile 0 cond_size,
                                 call_sigma = py_slice sigma_in 0 cond_size,
                                 c_crossattn = [tensor],
                                 c_concat = [Some (py_slice img 0 cond_size)]\<rparr>;
                        cond_out = forward_func call1;
                        uncond_size = shape0 uncond;
                        call2 = \<lparr>call_x = py_slice x_tile cond_size (cond_size + uncond_size),
                                 call_sigma = py_slice sigma_in cond_size (cond_size + uncond_size),
                                 c_crossattn = [uncond],
                                 c_concat = [Some (py_slice img cond_size (cond_size + uncond_size))]\<rparr>;
                        uncond_out = forward_func call2;
                        events = [SetControlTensor bbox_id cond_size, ForwardCall call1,
                                  SetControlTensor bbox_id uncond_size, ForwardCall call2]
                    in case torch_assign x_out 0 cond_size cond_out of Inl e \<Rightarrow> Inl e | Inr x_out1 \<Rightarrow>
                       case torch_assign x_out1 cond_size (cond_size + uncond_size) uncond_out of
                         Inl e \<Rightarrow> Inl e
                       | Inr x_out2 \<Rightarrow>
                       case self_is_edit_model self of None \<Rightarrow> Inl AttributeError | Some is_edit_model \<Rightarrow>
                         if is_edit_model then
                           (case torch_assign x_out2 (cond_size + uncond_size) (shape0 x_out2) uncond_out of
                              Inl e \<Rightarrow> Inl e
                            | Inr x_out3 \<Rightarrow> Inr (ks1, Some (events, x_out3)))
                         else Inr (ks1, Some (events, x_out2)))
               else
                 Inr (ks1\<lparr>self_tensor := (self_tensor ks1)(bbox_id \<mapsto> tensor),
                          self_uncond := (self_uncond ks1)(bbox_id \<mapsto> uncond),
                          self_image_cond_in := (self_image_cond_in ks1)(bbox_id \<mapsto> image_cond_in)\<rparr>,
                      None)
      else Inr (ks, None))"

text \<open>
  Lines 329 to 362: the incremental replay from the cached tensors. In the branch for an
  image-editing model the source calls \<^verbatim>\<open>torch.cat([tensor[a:b]], uncond)\<close>, whose second
  argument must be a dimension: the call raises a \<^verbatim>\<open>TypeError\<close>.
\<close>

definition kdiff_replay ::
  "(('x, 's, 'v, 'p) kdiff_call \<Rightarrow> 'x list) \<Rightarrow> ('v, 'p) tiled_diffusion
     \<Rightarrow> ('v, 'p) kdiff_attrs \<Rightarrow> 'x list \<Rightarrow> nat \<Rightarrow> 's list
     \<Rightarrow> py_error + (('v, 'p) kdiff_attrs \<times> ('x, 's, 'v, 'p) event list \<times> 'x list)" where
  "kdiff_replay forward_func self ks x_tile bbox_id sigma_in =
     (case self_tensor ks bbox_id of None \<Rightarrow> Inl KeyError | Some tensor \<Rightarrow>
      case self_uncond ks bbox_id of None \<Rightarrow> Inl KeyError | Some uncond \<Rightarrow>
      let batch_size = shape0 x_tile
      in if bbox_id \<ge> length (self_a ks) then Inl IndexError
         else
           let a = self_a ks ! bbox_id;
               b = a + batch_size;
               ks1 = ks\<lparr>self_a := (self_a ks)[bbox_id := self_a ks ! bbox_id + batch_size]\<rparr>
           in if a < shape0 tensor then
                (case self_is_edit_model self of None \<Rightarrow> Inl AttributeError | Some is_edit_model \<Rightarrow>
                 if \<not> is_edit_model then
                   (case self_image_cond_in ks1 bbox_id of None \<Rightarrow> Inl KeyError | Some image_cond_in \<Rightarrow>
                    let call = \<lparr>call_x = x_tile, call_sigma = sigma_in,
                                c_crossattn = [py_slice tensor a b], c_concat = [image_cond_in]\<rparr>
                    in Inr (ks1, [SetControlTensor bbox_id (shape0 x_tile), ForwardCall call],
                            forward_func call))
                 else Inl TypeError)
              else
                (case self_image_cond_in ks1 bbox_id of None \<Rightarrow> Inl KeyError | Some image_cond_in \<Rightarrow>
                 let call = \<lparr>call_x = x_tile, call_sigma = sigma_in,
                             c_crossattn = [uncond], c_concat = [image_cond_in]\<rparr>
                 in Inr (ks1, [SetControlTensor bbox_id (shape0 uncond), ForwardCall call],
                         forward_func call)))"

text \<open>
  \<^verbatim>\<open>kdiff_custom_forward\<close>: the three blocks in sequence. \<open>step\<close> is
  \<^verbatim>\<open>self.sampler.step\<close> and \<open>batch_cond_uncond\<close> is \<^verbatim>\<open>shared.batch_cond_uncond\<close>.
  The result is the object after the call, the events of the call and the returned tensor.
\<close>

definition kdiff_custom_forward ::
  "(('x::zero, 's, 'v, 'p) kdiff_call \<Rightarrow> 'x list) \<Rightarrow> bool \<Rightarrow> int \<Rightarrow> ('v, 'p) tiled_diffusion
     \<Rightarrow> 'x list \<Rightarrow> 'p org_cond \<Rightarrow> 'v multicond \<Rightarrow> 'v learned_cond \<Rightarrow> nat \<Rightarrow> 'a bbox_scheme \<Rightarrow> 's list
     \<Rightarrow> py_error + (('v, 'p) tiled_diffusion \<times> ('x, 's, 'v, 'p) event list \<times> 'x list)" where
  "kdiff_custom_forward forward_func batch_cond_uncond step self x_tile original_cond custom_cond
       uncond bbox_id bbox sigma_in =
     (case kdiff_reset step self of Inl e \<Rightarrow> Inl e | Inr self1 \<Rightarrow>
      case self_kdiff self1 of None \<Rightarrow> Inl AttributeError | Some ks \<Rightarrow>
      case kdiff_first_touch forward_func batch_cond_uncond step self1 ks x_tile original_cond
             custom_cond uncond bbox_id bbox sigma_in of
        Inl e \<Rightarrow> Inl e
      | Inr (ks1, Some (events, x_out)) \<Rightarrow> Inr (self1\<lparr>self_kdiff := Some ks1\<rparr>, events, x_out)
      | Inr (ks1, None) \<Rightarrow>
          (case kdiff_replay forward_func self1 ks1 x_tile bbox_id sigma_in of
             Inl e \<Rightarrow> Inl e
           | Inr (ks2, events, x_out) \<Rightarrow> Inr (self1\<lparr>self_kdiff := Some ks2\<rparr>, events, x_out)))"

subsection \<open>Samplers of the DDIM family: \<^verbatim>\<open>ddim_custom_forward\<close>\<close>

text \<open>
  The conditioning handed to the callback is the tensor, or the dictionary
  \<^verbatim>\<open>{"c_concat": [image_conditioning], "c_crossattn": [cond]}\<close>. The result is the list
  of the callback's invocations and the outcome; the extra positional and keyword
  arguments, which the method passes through untouched, are left out.
\<close>

datatype ('v, 'p) ddim_cond = CondTensor "'v tensor" | CondDict "'p image" "'v tensor"

record ('x, 't, 'v, 'p) ddim_call =
  ddim_x :: 'x
  ddim_cond :: "('v, 'p) ddim_cond"
  ddim_ts :: 't
  unconditional_conditioning :: "('v, 'p) ddim_cond"

definition crossattn_of :: "('v, 'p) ddim_cond \<Rightarrow> 'v tensor" where
  "crossattn_of c = (case c of CondTensor t \<Rightarrow> t | CondDict _ t \<Rightarrow> t)"

definition ddim_custom_forward ::
  "(('x, 't, 'v, 'p) ddim_call \<Rightarrow> 'r) \<Rightarrow> int \<Rightarrow> ('v, 'p) tiled_diffusion \<Rightarrow> 'x \<Rightarrow> 'p org_cond
     \<Rightarrow> 'v multicond \<Rightarrow> 'v learned_cond \<Rightarrow> 'a bbox_scheme \<Rightarrow> 't
     \<Rightarrow> ('x, 't, 'v, 'p) ddim_call list \<times> (py_error + 'r)" where
  "ddim_custom_forward forward_func step self x cond_in cond0 uncond0 bbox ts =
     (case reconstruct_custom_cond self step cond_in cond0 uncond0 bbox of
        Inl e \<Rightarrow> ([], Inl e)
      | Inr (conds_list, tensor, uncond1, image_conditioning) \<Rightarrow>
          if \<not> list_all (\<lambda>conds. length conds = 1) conds_list then ([], Inl AssertionError)
          else
            let cond = tensor;
                uncond =
                  (if shape1 uncond1 < shape1 cond then
                     let last_vector = map (\<lambda>r. py_slice r (- 1) (int (length r))) uncond1;
                         last_vector_repeated =
                           map (\<lambda>r. concat (replicate (nat (shape1 cond - shape1 uncond1)) r)) last_vector
                     in map2 (@) uncond1 last_vector_repeated
                   else if shape1 uncond1 > shape1 cond then
                     map (\<lambda>r. py_slice r 0 (shape1 cond)) uncond1
                   else uncond1);
                call =
                  (case image_conditioning of
                     Some img \<Rightarrow>
                       \<lparr>ddim_x = x, ddim_cond = CondDict img cond, ddim_ts = ts,
                        unconditional_conditioning = CondDict img uncond\<rparr>
                   | None \<Rightarrow>
                       \<lparr>ddim_x = x, ddim_cond = CondTensor cond, ddim_ts = ts,
                        unconditional_conditioning = CondTensor uncond\<rparr>)
            in ([call], Inr (forward_func call)))"

subsection \<open>A sequence of calls for one region\<close>

text \<open>
  The sampler calls \<^verbatim>\<open>kdiff_custom_forward\<close> several times for a region within a step,
  each time with the next part of the batch. \<open>kdiff_calls\<close> makes these calls in order,
  with the tile and sigma of each call, and concatenates their events.
\<close>

fun kdiff_calls ::
  "(('x::zero, 's, 'v, 'p) kdiff_call \<Rightarrow> 'x list) \<Rightarrow> bool \<Rightarrow> int \<Rightarrow> ('v, 'p) tiled_diffusion
     \<Rightarrow> 'p org_cond \<Rightarrow> 'v multicond \<Rightarrow> 'v learned_cond \<Rightarrow> nat \<Rightarrow> 'a bbox_scheme
     \<Rightarrow> ('x list \<times> 's list) list
     \<Rightarrow> py_error + (('v, 'p) tiled_diffusion \<times> ('x, 's, 'v, 'p) event list)" where
  "kdiff_calls forward_func batch_cond_uncond step self original_cond custom_cond uncond bbox_id bbox [] =
     Inr (self, [])"
| "kdiff_calls forward_func batch_cond_uncond step self original_cond custom_cond uncond bbox_id bbox
       ((x_tile, sigma_in) # rest) =
     (case kdiff_custom_forward forward_func batch_cond_uncond step self x_tile original_cond
             custom_cond uncond bbox_id bbox sigma_in of
        Inl e \<Rightarrow> Inl e
      | Inr (self1, events, x_out) \<Rightarrow>
          (case kdiff_calls forward_func batch_cond_uncond step self1 original_cond custom_cond
                  uncond bbox_id bbox rest of
             Inl e \<Rightarrow> Inl e
           | Inr (self2, events2) \<Rightarrow> Inr (self2, events @ events2)))"

text \<open>
  The conditioning entries that a list of events hands to the callback, in order: the
  entries of every \<^verbatim>\<open>c_crossattn\<close> tensor of every call.
\<close>

fun consumed :: "('x, 's, 'v, 'p) event list \<Rightarrow> 'v list list" where
  "consumed [] = []"
| "consumed (SetControlTensor _ _ # es) = consumed es"
| "consumed (ForwardCall c # es) = concat (c_crossattn c) @ consumed es"

text \<open>The invocations of the callback among a list of events, in order.\<close>

fun forward_calls :: "('x, 's, 'v, 'p) event list \<Rightarrow> ('x, 's, 'v, 'p) kdiff_call list" where
  "forward_calls [] = []"
| "forward_calls (SetControlTensor _ _ # es) = forward_calls es"
| "forward_calls (ForwardCall c # es) = c # forward_calls es"

text \<open>
  The slices of a list of the given lengths, one after the other:
  \<^verbatim>\<open>xs[0:n1]\<close>, \<^verbatim>\<open>xs[n1:n1+n2]\<close>, and so on.
\<close>

fun slices :: "nat list \<Rightarrow> 'a list \<Rightarrow> 'a list list" where
  "slices [] xs = []"
| "slices (n # ns) xs = take n xs # slices ns (drop n xs)"

text \<open>The cursor \<^verbatim>\<open>self.a[bbox_id]\<close> of a region, if the attribute exists and has the index.\<close>

definition cursor :: "('v, 'p) tiled_diffusion \<Rightarrow> nat \<Rightarrow> int option" where
  "cursor self bbox_id =
     (case self_kdiff self of
        None \<Rightarrow> None
      | Some ks \<Rightarrow> if bbox_id < length (self_a ks) then Some (self_a ks ! bbox_id) else None)"

text \<open>
  A region in the middle of its replay within a step: the object is at that step, the
  region's marker is the step, its conditional and unconditional tensors are cached, and
  its cursor \<^verbatim>\<open>self.a[bbox_id]\<close> is \<open>n\<close>; the model is not an image-editing model.
\<close>

definition replaying ::
  "int \<Rightarrow> nat \<Rightarrow> 'v tensor \<Rightarrow> 'v tensor \<Rightarrow> nat \<Rightarrow> ('v, 'p) tiled_diffusion \<Rightarrow> bool" where
  "replaying step bbox_id tensor uncond n self \<longleftrightarrow>
     self_kdiff_step self = step \<and> self_is_edit_model self = Some False \<and>
     (case self_kdiff self of
        None \<Rightarrow> False
      | Some ks \<Rightarrow>
          bbox_id < length (self_kdiff_step_bbox ks) \<and> self_kdiff_step_bbox ks ! bbox_id = step \<and>
          self_tensor ks bbox_id = Some tensor \<and> self_uncond ks bbox_id = Some uncond \<and>
          self_image_cond_in ks bbox_id \<noteq> None \<and>
          bbox_id < length (self_a ks) \<and> self_a ks ! bbox_id = int n)"

section \<open>The tile grid in closed form\<close>

text \<open>
  The number of tile columns for a canvas of \<open>extent\<close> cells, and likewise of rows:
  \<open>ceil((extent - overlap) / (tile - overlap))\<close>.
\<close>

definition tile_count :: "int \<Rightarrow> int \<Rightarrow> int \<Rightarrow> int" where
  "tile_count extent tile overlap = \<lceil>(of_int (extent - overlap) :: rat) / of_int (tile - overlap)\<rceil>"

text \<open>
  The offset of column (or row) \<open>c\<close> out of \<open>n\<close> as the specification words it, with
  rounding to the nearest integer: \<open>round(c * (extent - tile) / (n - 1))\<close>, and \<open>0\<close> when
  there is one column.
\<close>

definition spec_tile_offset :: "int \<Rightarrow> int \<Rightarrow> int \<Rightarrow> int \<Rightarrow> int" where
  "spec_tile_offset extent tile n c =
     (if n > 1 then round ((of_int c :: rat) * of_int (extent - tile) / of_int (n - 1)) else 0)"

text \<open>The same offset with the quotient truncated: \<open>floor(c * (extent - tile) / (n - 1))\<close>.\<close>

definition tile_offset :: "int \<Rightarrow> int \<Rightarrow> int \<Rightarrow> int \<Rightarrow> int" where
  "tile_offset extent tile n c =
     (if n > 1 then \<lfloor>(of_int c :: rat) * of_int (extent - tile) / of_int (n - 1)\<rfloor> else 0)"

text \<open>The tiles at the truncated offsets, row by row.\<close>

definition tile_grid :: "int \<Rightarrow> int \<Rightarrow> int \<Rightarrow> int \<Rightarrow> int \<Rightarrow> bbox list" where
  "tile_grid w h tile_w tile_h overlap =
     concat (map (\<lambda>row.
        map (\<lambda>col. BBox (tile_offset w tile_w (tile_count w tile_w overlap) col)
                         (tile_offset h tile_h (tile_count h tile_h overlap) row) tile_w tile_h)
            (py_range (tile_count w tile_w overlap)))
       (py_range (tile_count h tile_h overlap)))"

section \<open>Observations and example data\<close>

text \<open>The exception a result stands for, if any.\<close>

definition raised :: "py_error + 'a \<Rightarrow> py_error option" where
  "raised r = (case r of Inl e \<Rightarrow> Some e | Inr _ \<Rightarrow> None)"

text \<open>
  The object that the constructor builds for a 32 by 32 pixel image, a tile of 4 by 4
  latent cells, no overlap and a tile batch size of 1.
\<close>

definition example_self :: "(nat, nat) tiled_diffusion" where
  "example_self =
     \<lparr>self_is_kdiff = True, self_w = 4, self_h = 4, self_tile_w = 4, self_tile_h = 4,
      self_batched_bboxes = [[BBox 0 0 4 4]],
      self_weights = replicate 4 (replicate 4 1),
      self_num_batches = 1, self_tile_batch_size = 1,
      self_custom_bboxes = [], self_draw_background = True,
      self_pbar = None, self_total_bboxes = None, self_is_edit_model = None,
      self_kdiff_step = - 1, self_all_pos_cond = None, self_all_neg_cond = None,
      self_kdiff = None\<rparr>"

text \<open>An enabled region over the middle of the canvas.\<close>

definition example_tuple :: region_tuple where
  "example_tuple =
     \<lparr>rt_enable = True, rt_x = 1 / 4, rt_y = 1 / 4, rt_w = 1 / 2, rt_h = 1 / 2,
      rt_prompt = ''a cat'', rt_neg_prompt = [], rt_blend_mode = BACKGROUND,
      rt_feather_ratio = 1 / 5\<rparr>"

text \<open>
  Conditioning objects for the examples: a positive conditioning of one entry of two
  tokens, a composite one (two components for its prompt), and negative conditionings of
  one, two and three tokens. Token vectors are numbers.
\<close>

definition example_cond :: "nat multicond" where
  "example_cond step = ([[(0, 1)]], [[10, 11]])"

definition example_composite_cond :: "nat multicond" where
  "example_composite_cond step = ([[(0, 1), (1, 1)]], [[10, 11], [12, 13]])"

definition example_uncond1 :: "nat learned_cond" where
  "example_uncond1 step = [[20]]"

definition example_uncond2 :: "nat learned_cond" where
  "example_uncond2 step = [[20, 21]]"

definition example_uncond3 :: "nat learned_cond" where
  "example_uncond3 step = [[20, 21, 22]]"

text \<open>
  The example object during sampling with a k-diffusion sampler: \<^verbatim>\<open>init_custom_bbox\<close>
  has stored one region, \<^verbatim>\<open>init\<close> has found no image-editing model, and
  \<^verbatim>\<open>refresh_prompt\<close> has stored a global positive conditioning of two tokens and a
  global negative conditioning of three.
\<close>

definition example_region :: custom_bbox where
  "example_region =
     \<lparr>bbox_x = 1, bbox_y = 1, bbox_w = 2, bbox_h = 2,
      bbox_prompt_cache = PStr ''a cat'', bbox_neg_prompt_cache = PStr [],
      bbox_blend_mode = BACKGROUND, bbox_feather_ratio = 1 / 5, bbox_feather_mask = None\<rparr>"

definition example_sampling :: "(nat, nat) tiled_diffusion" where
  "example_sampling =
     example_self\<lparr>self_custom_bboxes := [example_region],
                  self_is_edit_model := Some False,
                  self_all_pos_cond := Some example_cond,
                  self_all_neg_cond := Some example_uncond3\<rparr>"

text \<open>A region conditioning of two entries and one of three, for the replay.\<close>

definition example_region_cond :: "nat multicond" where
  "example_region_cond step = ([[(0, 1)], [(1, 1)]], [[10, 11], [12, 13]])"

definition example_region_uncond :: "nat learned_cond" where
  "example_region_uncond step = [[20, 21, 22], [23, 24, 25]]"

text \<open>The callback of the examples returns the latent it is given.\<close>

definition example_forward :: "(int, int, nat, nat) kdiff_call \<Rightarrow> int list" where
  "example_forward c = call_x c"

text \<open>
  The example object with two regions, in the middle of sampling: step 0 is over, both
  regions have their tensors cached, region 0 has been given four batch entries and
  region 1 three.
\<close>

definition example_mid_step :: "(nat, nat) tiled_diffusion" where
  "example_mid_step =
     example_self\<lparr>self_custom_bboxes := [example_region, example_region],
                  self_is_edit_model := Some False,
                  self_kdiff_step := 0,
                  self_all_pos_cond := Some example_cond,
                  self_all_neg_cond := Some example_uncond3,
                  self_kdiff := Some
                    \<lparr>self_kdiff_step_bbox = [0, 0],
                     self_tensor = [0 \<mapsto> [[10, 11], [12, 13]], 1 \<mapsto> [[10, 11], [12, 13]]],
                     self_uncond = [0 \<mapsto> [[20, 21, 22], [23, 24, 25]],
                                    1 \<mapsto> [[20, 21, 22], [23, 24, 25]]],
                     self_image_cond_in = [0 \<mapsto> Some [[[5]]], 1 \<mapsto> Some [[[5]]]],
                     self_real_tensor = [[10, 11]],
                     self_real_uncond = [[20, 21, 22]],
                     self_a = [4, 3]\<rparr>\<rparr>"

section \<open>Properties\<close>

subsection \<open>Evaluation of quotients\<close>

lemma ceiling_rat_numeral [simp]:
  "\<lceil>(numeral a :: rat) / numeral b\<rceil> = - (- numeral a div numeral b)"
  using ceiling_divide_eq_div [of "numeral a" "numeral b", where ?'a = rat] by simp

lemma floor_rat_numeral [simp]:
  "\<lfloor>(numeral a :: rat) / numeral b\<rfloor> = numeral a div numeral b"
  using floor_divide_of_int_eq [of "numeral a" "numeral b", where ?'a = rat] by simp

lemma example_self_constructed:
  "TiledDiffusion (\<lambda>i j. 1) ''Euler a'' 32 32 4 4 0 1 = Inr example_self"
  by (simp add: TiledDiffusion_def init_geometry_def split_views_def init_batches_def py_truediv_def
      torch_zeros_def py_range_def py_int_def add_weights_def in_slice_def BBox_def example_self_def
      py_slice_def py_slice_bound_def Let_def enumerate_eq_zip upt_rec numeral_eq_Suc)

subsection \<open>Tile batches\<close>

text \<open>
  Claim C2. The batching of the constructor is to give batches whose sizes differ by at
  most one. The source computes \<^verbatim>\<open>optimal_batch_size\<close> and stores it in
  \<^verbatim>\<open>self.tile_batch_size\<close>, but its loop slices with the requested
  \<^verbatim>\<open>tile_batch_size\<close>: five tiles with a requested batch size of four give two
  batches, of four tiles and of one tile, while the stored batch size is three.
\<close>

theorem init_batches_unbalanced:
  "init_batches [0, 1, 2, 3, 4 :: nat] 4 = Inr (2, 3, [[0, 1, 2, 3], [4]])"
  by code_simp

subsection \<open>Region configuration\<close>

text \<open>
  Claim C3. Every enabled tuple of non-degenerate geometry is to give one region. The
  loop of \<^verbatim>\<open>init_custom_bbox\<close> stops at \<^verbatim>\<open>len(bbox_control_states) - 9\<close>, so the
  last tuple of the sequence is never read: a sequence of one tuple that is to be kept
  gives no region.
\<close>

theorem init_custom_bbox_drops_last_tuple:
  "tuple_kept example_tuple \<and>
   map_sum id self_custom_bboxes
     (init_custom_bbox True (flatten_tuples [example_tuple]) example_self) = Inr []"
  by code_simp

subsection \<open>Something to sample\<close>

lemma init_custom_bbox_draw_background:
  assumes "init_custom_bbox db states self = Inr self1"
  shows "(self_draw_background self1 = self_draw_background self \<or> self_custom_bboxes self1 \<noteq> [])
         \<and> self_num_batches self1 = self_num_batches self \<and> self_pbar self1 = self_pbar self
         \<and> self_is_kdiff self1 = self_is_kdiff self \<and> self_is_edit_model self1 = self_is_edit_model self"
  using assms unfolding init_custom_bbox_def
  by (auto split: sum.splits if_splits)

lemma ceiling_nonneg_div:
  assumes "0 \<le> n" "0 < b"
  shows "0 \<le> \<lceil>(of_int n :: rat) / of_int b\<rceil>"
proof -
  have "(0::rat) \<le> of_int n / of_int b" using assms by simp
  then have "(- 1::rat) < of_int n / of_int b" by linarith
  then show ?thesis by (simp add: zero_le_ceiling)
qed

lemma TiledDiffusion_fresh:
  assumes "TiledDiffusion gw name pw ph tw th ov b = Inr self" "0 < b"
  shows "self_draw_background self \<and> 0 < self_num_batches self \<and> self_pbar self = None
         \<and> self_custom_bboxes self = []"
proof -
  obtain w h tile_w tile_h overlap where g: "init_geometry pw ph tw th ov = (w, h, tile_w, tile_h, overlap)"
    by (metis prod_cases5)
  from assms(1) g obtain bboxes weights where
    sv: "split_views gw w h tile_w tile_h overlap = Inr (bboxes, weights)"
    unfolding TiledDiffusion_def by (auto split: sum.splits)
  from assms(1) g sv obtain nb ob bb where
    ib: "init_batches bboxes b = Inr (nb, ob, bb)"
    and s: "self_draw_background self" "self_num_batches self = nb" "self_pbar self = None"
           "self_custom_bboxes self = []"
    unfolding TiledDiffusion_def by (auto split: sum.splits)
  from ib have nb: "nb = \<lceil>(of_int (int (length bboxes)) :: rat) / of_int b\<rceil>" "nb \<noteq> 0"
    using assms(2) unfolding init_batches_def py_truediv_def
    by (auto simp: Let_def split: if_splits)
  have "0 \<le> nb" unfolding nb(1) using assms(2) by (intro ceiling_nonneg_div) auto
  with nb(2) s show ?thesis by auto
qed

text \<open>
  Claim C10, as amended. After the first call of \<^verbatim>\<open>init_custom_bbox\<close> on an object
  that the constructor has built with a positive tile batch size, \<^verbatim>\<open>draw_background\<close>
  is false only if \<^verbatim>\<open>custom_bboxes\<close> is not empty, and the assertion of \<^verbatim>\<open>init\<close>
  holds: \<^verbatim>\<open>init\<close> does not raise.
\<close>

theorem first_init_custom_bbox_keeps_something_to_sample:
  assumes "TiledDiffusion gw name pw ph tw th ov b = Inr self0"
    and "0 < b"
    and "init_custom_bbox db states self0 = Inr self1"
  shows "(self_draw_background self1 \<or> self_custom_bboxes self1 \<noteq> [])
         \<and> raised (init edit scale steps self1) = None"
proof -
  from TiledDiffusion_fresh [OF assms(1,2)]
  have f: "self_draw_background self0" "0 < self_num_batches self0" "self_pbar self0 = None" by auto
  from init_custom_bbox_draw_background [OF assms(3)] f
  have k: "self_draw_background self1 \<or> self_custom_bboxes self1 \<noteq> []"
    "self_num_batches self1 = self_num_batches self0" "self_pbar self1 = None" by auto
  have "0 < (if self_draw_background self1 then self_num_batches self1 else 0)
           + int (length (self_custom_bboxes self1))"
    using k f by (cases "self_custom_bboxes self1") auto
  then have "raised (init edit scale steps self1) = None"
    using k(3) unfolding init_def raised_def by (auto simp: Let_def split: if_splits)
  with k(1) show ?thesis by simp
qed

theorem first_init_custom_bbox_keeps_something_to_sample_witness:
  "(self_draw_background
      (projr (init_custom_bbox False (flatten_tuples [example_tuple, example_tuple]) example_self))
    \<or> self_custom_bboxes
      (projr (init_custom_bbox False (flatten_tuples [example_tuple, example_tuple]) example_self)) \<noteq> [])
   \<and> raised (init False None 20
      (projr (init_custom_bbox False (flatten_tuples [example_tuple, example_tuple]) example_self))) = None"
proof -
  have "\<not> isl (init_custom_bbox False (flatten_tuples [example_tuple, example_tuple]) example_self)"
    by code_simp
  then have r: "init_custom_bbox False (flatten_tuples [example_tuple, example_tuple]) example_self
      = Inr (projr (init_custom_bbox False (flatten_tuples [example_tuple, example_tuple]) example_self))"
    by simp
  have b: "(0::int) < 1" by simp
  show ?thesis
    by (rule first_init_custom_bbox_keeps_something_to_sample [OF example_self_constructed b r])
qed

text \<open>
  The claim as it was stated fails for a second call. A first call stores a region and
  turns the background off; a second call without any tuple empties \<^verbatim>\<open>custom_bboxes\<close>
  and returns before it touches \<^verbatim>\<open>draw_background\<close>; \<^verbatim>\<open>init\<close> then finds nothing to
  sample and its assertion fails.
\<close>

theorem second_call_leaves_nothing_to_sample:
  "\<not> isl (init_custom_bbox False (flatten_tuples [example_tuple, example_tuple]) example_self)
   \<and> \<not> isl (init_custom_bbox True []
        (projr (init_custom_bbox False (flatten_tuples [example_tuple, example_tuple]) example_self)))
   \<and> \<not> self_draw_background (projr (init_custom_bbox True []
        (projr (init_custom_bbox False (flatten_tuples [example_tuple, example_tuple]) example_self))))
   \<and> self_custom_bboxes (projr (init_custom_bbox True []
        (projr (init_custom_bbox False (flatten_tuples [example_tuple, example_tuple]) example_self)))) = []
   \<and> raised (init False None 20 (projr (init_custom_bbox True []
        (projr (init_custom_bbox False (flatten_tuples [example_tuple, example_tuple]) example_self)))))
       = Some AssertionError"
  by code_simp

subsection \<open>Samplers of the DDIM family\<close>

lemma reconstruct_custom_cond_ok:
  assumes "cond_in \<noteq> Dict []"
  shows "\<exists>img. reconstruct_custom_cond self step cond_in cond0 uncond0 bbox =
           Inr (fst (reconstruct_multicond_batch cond0 step), snd (reconstruct_multicond_batch cond0 step),
                reconstruct_cond_batch uncond0 step, img)"
  using assms unfolding reconstruct_custom_cond_def
  by (auto split: org_cond.splits list.splits prod.splits)

text \<open>
  Claim C7. For a conditioning whose dictionary, if it is one, has its image
  conditioning, and a reconstructed positive conditioning none of whose entries is
  empty: \<^verbatim>\<open>ddim_custom_forward\<close> raises the assertion error exactly when some entry
  of \<^verbatim>\<open>conds_list\<close> has more than one component, and then the callback is not invoked.
\<close>

theorem ddim_rejects_exactly_composite:
  assumes "cond_in \<noteq> Dict []"
    and "list_all (\<lambda>conds. conds \<noteq> []) (fst (reconstruct_multicond_batch cond0 step))"
  shows "(raised (snd (ddim_custom_forward forward_func step self x cond_in cond0 uncond0 bbox ts))
            = Some AssertionError
          \<longleftrightarrow> (\<exists>conds \<in> set (fst (reconstruct_multicond_batch cond0 step)). 1 < length conds))
       \<and> (raised (snd (ddim_custom_forward forward_func step self x cond_in cond0 uncond0 bbox ts))
            = Some AssertionError
          \<longrightarrow> fst (ddim_custom_forward forward_func step self x cond_in cond0 uncond0 bbox ts) = [])"
proof -
  from reconstruct_custom_cond_ok [OF assms(1)] obtain img where
    r: "reconstruct_custom_cond self step cond_in cond0 uncond0 bbox =
           Inr (fst (reconstruct_multicond_batch cond0 step), snd (reconstruct_multicond_batch cond0 step),
                reconstruct_cond_batch uncond0 step, img)" by blast
  have e: "(\<not> list_all (\<lambda>conds. length conds = 1) (fst (reconstruct_multicond_batch cond0 step)))
        \<longleftrightarrow> (\<exists>conds \<in> set (fst (reconstruct_multicond_batch cond0 step)). 1 < length conds)"
    using assms(2) unfolding list_all_iff
    by (metis One_nat_def Suc_lessI length_greater_0_conv less_numeral_extra(4))
  show ?thesis
    unfolding ddim_custom_forward_def r
    using e by (auto simp: raised_def Let_def split: option.splits)
qed

theorem ddim_rejects_exactly_composite_witness:
  "raised (snd (ddim_custom_forward (\<lambda>c. ()) 0 example_self () NotDict example_composite_cond
            example_uncond3 example_region ())) = Some AssertionError
   \<and> fst (ddim_custom_forward (\<lambda>c. ()) 0 example_self () NotDict example_composite_cond
            example_uncond3 example_region ()) = []
   \<and> raised (snd (ddim_custom_forward (\<lambda>c. ()) 0 example_self () NotDict example_cond
            example_uncond3 example_region ())) \<noteq> Some AssertionError"
proof -
  have h1: "(NotDict :: nat org_cond) \<noteq> Dict []" by simp
  have h2: "list_all (\<lambda>conds. conds \<noteq> []) (fst (reconstruct_multicond_batch example_composite_cond 0))"
    by (simp add: reconstruct_multicond_batch_def example_composite_cond_def)
  have h3: "list_all (\<lambda>conds. conds \<noteq> []) (fst (reconstruct_multicond_batch example_cond 0))"
    by (simp add: reconstruct_multicond_batch_def example_cond_def)
  have c: "\<exists>conds \<in> set (fst (reconstruct_multicond_batch example_composite_cond 0)). 1 < length conds"
    by (simp add: reconstruct_multicond_batch_def example_composite_cond_def)
  have n: "\<not> (\<exists>conds \<in> set (fst (reconstruct_multicond_batch example_cond 0)). 1 < length conds)"
    by (simp add: reconstruct_multicond_batch_def example_cond_def)
  from ddim_rejects_exactly_composite [OF h1 h2, of "\<lambda>c. ()" example_self "()" example_uncond3 example_region "()"] c
       ddim_rejects_exactly_composite [OF h1 h3, of "\<lambda>c. ()" example_self "()" example_uncond3 example_region "()"] n
  show ?thesis by blast
qed

subsection \<open>Samplers of the DDIM family: the negative conditioning\<close>

lemma py_slice_last:
  assumes "xs \<noteq> []"
  shows "py_slice xs (- 1) (int (length xs)) = [last xs]"
proof -
  have l: "0 < length xs" using assms by simp
  have s: "py_slice_bound (length xs) (- 1) = length xs - 1"
    using l unfolding py_slice_bound_def by auto
  have e: "py_slice_bound (length xs) (int (length xs)) = length xs"
    unfolding py_slice_bound_def by auto
  have "drop (length xs - 1) xs = [last xs]"
    using assms by (metis append_butlast_last_id append_eq_conv_conj length_butlast)
  then show ?thesis unfolding py_slice_def s e using l by (simp add: Let_def)
qed

lemma py_slice_prefix:
  assumes "0 \<le> n"
  shows "py_slice xs 0 n = take (nat n) xs"
  using assms unfolding py_slice_def py_slice_bound_def by (simp add: Let_def min_def)

lemma concat_replicate_single: "concat (replicate k [v]) = replicate k v"
  by (induction k) auto

lemma shape1_uniform:
  assumes "t \<noteq> []" "list_all (\<lambda>r. length r = L) t"
  shows "shape1 t = int L"
  using assms unfolding shape1_def by (cases t) auto

text \<open>
  Claim C6. For a request that is not rejected (every entry of \<^verbatim>\<open>conds_list\<close> has one
  component) and a negative conditioning that has a last token (a batch that is not empty,
  of \<open>Lu > 0\<close> tokens per entry): the callback is invoked exactly once; the positive
  conditioning is passed as reconstructed; a negative conditioning shorter than the
  positive one (\<open>Lu < Lc\<close>) is extended by copies of its last token, an equal or longer
  one is cut to the first \<open>Lc\<close> tokens; in each case the passed negative conditioning has
  \<open>Lc\<close> tokens per entry.
\<close>

theorem ddim_uncond_padded_or_truncated:
  assumes "cond_in \<noteq> Dict []"
    and "list_all (\<lambda>conds. length conds = 1) (fst (reconstruct_multicond_batch cond0 step))"
    and "reconstruct_cond_batch uncond0 step \<noteq> []"
    and "list_all (\<lambda>r. length r = Lu) (reconstruct_cond_batch uncond0 step)"
    and "0 < Lu"
    and "shape1 (snd (reconstruct_multicond_batch cond0 step)) = int Lc"
  shows "\<exists>call. ddim_custom_forward forward_func step self x cond_in cond0 uncond0 bbox ts
              = ([call], Inr (forward_func call))
     \<and> crossattn_of (ddim_cond call) = snd (reconstruct_multicond_batch cond0 step)
     \<and> crossattn_of (unconditional_conditioning call)
         = map (\<lambda>r. if Lu < Lc then r @ replicate (Lc - Lu) (last r) else take Lc r)
             (reconstruct_cond_batch uncond0 step)
     \<and> list_all (\<lambda>r. length r = Lc) (crossattn_of (unconditional_conditioning call))"
proof -
  define tensor where "tensor = snd (reconstruct_multicond_batch cond0 step)"
  define uncond1 where "uncond1 = reconstruct_cond_batch uncond0 step"
  define uncond where "uncond =
     (if shape1 uncond1 < shape1 tensor then
        let last_vector = map (\<lambda>r. py_slice r (- 1) (int (length r))) uncond1;
            last_vector_repeated =
              map (\<lambda>r. concat (replicate (nat (shape1 tensor - shape1 uncond1)) r)) last_vector
        in map2 (@) uncond1 last_vector_repeated
      else if shape1 uncond1 > shape1 tensor then
        map (\<lambda>r. py_slice r 0 (shape1 tensor)) uncond1
      else uncond1)"
  from reconstruct_custom_cond_ok [OF assms(1)] obtain img where
    r: "reconstruct_custom_cond self step cond_in cond0 uncond0 bbox =
           Inr (fst (reconstruct_multicond_batch cond0 step), tensor, uncond1, img)"
    unfolding tensor_def uncond1_def by blast
  have su: "shape1 uncond1 = int Lu"
    using shape1_uniform assms(3,4) unfolding uncond1_def by blast
  have st: "shape1 tensor = int Lc" using assms(6) unfolding tensor_def .
  have rows: "\<And>r. r \<in> set uncond1 \<Longrightarrow> length r = Lu \<and> r \<noteq> []"
    using assms(4,5) unfolding uncond1_def list_all_iff by auto
  have u: "uncond = map (\<lambda>r. if Lu < Lc then r @ replicate (Lc - Lu) (last r) else take Lc r) uncond1"
  proof (cases "Lu < Lc")
    case True
    have "map2 (@) uncond1
            (map (\<lambda>r. concat (replicate (Lc - Lu) r))
               (map (\<lambda>r. py_slice r (- 1) (int (length r))) uncond1))
          = map (\<lambda>r. r @ concat (replicate (Lc - Lu) (py_slice r (- 1) (int (length r))))) uncond1"
      by (induction uncond1) auto
    also have "\<dots> = map (\<lambda>r. r @ replicate (Lc - Lu) (last r)) uncond1"
    proof (intro map_cong refl)
      fix r assume "r \<in> set uncond1"
      then have "r \<noteq> []" using rows by blast
      then show "r @ concat (replicate (Lc - Lu) (py_slice r (- 1) (int (length r))))
                 = r @ replicate (Lc - Lu) (last r)"
        by (simp add: py_slice_last concat_replicate_single)
    qed
    finally show ?thesis
      using True unfolding uncond_def su st by (simp add: Let_def nat_diff_distrib')
  next
    case False
    show ?thesis
    proof (cases "Lc < Lu")
      case True
      then show ?thesis
        using False unfolding uncond_def su st by (simp add: py_slice_prefix)
    next
      case eq: False
      with False have "Lu = Lc" by simp
      then have "map (take Lc) uncond1 = uncond1"
        using rows by (intro map_idI) auto
      then show ?thesis
        using False eq unfolding uncond_def su st by simp
    qed
  qed
  have len: "list_all (\<lambda>r. length r = Lc) uncond"
    unfolding u list_all_iff using rows by auto
  show ?thesis
    unfolding ddim_custom_forward_def r
    using assms(2) u len
    unfolding uncond_def tensor_def [symmetric] uncond1_def [symmetric]
    by (cases img) (auto simp: Let_def crossattn_of_def)
qed


theorem ddim_uncond_padded_or_truncated_witness:
  "map (crossattn_of \<circ> unconditional_conditioning)
     (fst (ddim_custom_forward (\<lambda>c. ()) 0 example_self () NotDict example_cond example_uncond1
        example_region ())) = [[[20, 20]]]
   \<and> map (crossattn_of \<circ> unconditional_conditioning)
     (fst (ddim_custom_forward (\<lambda>c. ()) 0 example_self () NotDict example_cond example_uncond3
        example_region ())) = [[[20, 21]]]"
proof -
  have h1: "(NotDict :: nat org_cond) \<noteq> Dict []" by simp
  have h2: "list_all (\<lambda>conds. length conds = 1) (fst (reconstruct_multicond_batch example_cond 0))"
    by (simp add: reconstruct_multicond_batch_def example_cond_def)
  have h6: "shape1 (snd (reconstruct_multicond_batch example_cond 0)) = int 2"
    by (simp add: reconstruct_multicond_batch_def example_cond_def shape1_def)
  have a3: "reconstruct_cond_batch example_uncond1 0 \<noteq> []"
    by (simp add: reconstruct_cond_batch_def example_uncond1_def)
  have a4: "list_all (\<lambda>r. length r = 1) (reconstruct_cond_batch example_uncond1 0)"
    by (simp add: reconstruct_cond_batch_def example_uncond1_def)
  have b3: "reconstruct_cond_batch example_uncond3 0 \<noteq> []"
    by (simp add: reconstruct_cond_batch_def example_uncond3_def)
  have b4: "list_all (\<lambda>r. length r = 3) (reconstruct_cond_batch example_uncond3 0)"
    by (simp add: reconstruct_cond_batch_def example_uncond3_def)
  have p1: "(0::nat) < 1" and p3: "(0::nat) < 3" by simp_all
  from ddim_uncond_padded_or_truncated [OF h1 h2 a3 a4 p1 h6,
      of "\<lambda>c. ()" example_self "()" example_region "()"]
  have A: "map (crossattn_of \<circ> unconditional_conditioning)
     (fst (ddim_custom_forward (\<lambda>c. ()) 0 example_self () NotDict example_cond example_uncond1
        example_region ())) = [[[20, 20]]]"
    by (auto simp: reconstruct_cond_batch_def example_uncond1_def numeral_2_eq_2)
  from ddim_uncond_padded_or_truncated [OF h1 h2 b3 b4 p3 h6,
      of "\<lambda>c. ()" example_self "()" example_region "()"]
  have B: "map (crossattn_of \<circ> unconditional_conditioning)
     (fst (ddim_custom_forward (\<lambda>c. ()) 0 example_self () NotDict example_cond example_uncond3
        example_region ())) = [[[20, 21]]]"
    by (auto simp: reconstruct_cond_batch_def example_uncond3_def numeral_2_eq_2)
  from A B show ?thesis by simp
qed

subsection \<open>Samplers of the k-diffusion family: the reset at a new step\<close>

lemma kdiff_first_touch_frame:
  assumes "kdiff_first_touch ff bcu step self ks x oc cc uc bbox_id bbox sigma = Inr (ks1, r)"
  shows "self_a ks1 = self_a ks
       \<and> length (self_kdiff_step_bbox ks1) = length (self_kdiff_step_bbox ks)
       \<and> self_real_tensor ks1 = self_real_tensor ks \<and> self_real_uncond ks1 = self_real_uncond ks
       \<and> (\<forall>i. i \<noteq> bbox_id \<longrightarrow>
             self_tensor ks1 i = self_tensor ks i \<and> self_uncond ks1 i = self_uncond ks i
             \<and> self_image_cond_in ks1 i = self_image_cond_in ks i
             \<and> self_kdiff_step_bbox ks1 ! i = self_kdiff_step_bbox ks ! i)"
  using assms unfolding kdiff_first_touch_def
  by (auto simp: Let_def split: if_splits sum.splits option.splits prod.splits)

lemma kdiff_replay_frame:
  assumes "kdiff_replay ff self ks x bbox_id sigma = Inr (ks2, events, x_out)"
  shows "self_tensor ks2 = self_tensor ks \<and> self_uncond ks2 = self_uncond ks
       \<and> self_image_cond_in ks2 = self_image_cond_in ks
       \<and> self_kdiff_step_bbox ks2 = self_kdiff_step_bbox ks
       \<and> self_real_tensor ks2 = self_real_tensor ks \<and> self_real_uncond ks2 = self_real_uncond ks
       \<and> length (self_a ks2) = length (self_a ks)
       \<and> (\<forall>i. i \<noteq> bbox_id \<longrightarrow> self_a ks2 ! i = self_a ks ! i)"
  using assms unfolding kdiff_replay_def
  by (auto simp: Let_def split: if_splits sum.splits option.splits prod.splits)

lemma kdiff_custom_forward_frame:
  assumes "kdiff_custom_forward ff bcu step self x oc cc uc bbox_id bbox sigma = Inr (self', events, x_out)"
  shows "\<exists>self1 ks ks'. kdiff_reset step self = Inr self1 \<and> self_kdiff self1 = Some ks
       \<and> self' = self1\<lparr>self_kdiff := Some ks'\<rparr>
       \<and> length (self_kdiff_step_bbox ks') = length (self_kdiff_step_bbox ks)
       \<and> length (self_a ks') = length (self_a ks)
       \<and> (\<forall>i. i \<noteq> bbox_id \<longrightarrow>
             self_tensor ks' i = self_tensor ks i \<and> self_uncond ks' i = self_uncond ks i
             \<and> self_image_cond_in ks' i = self_image_cond_in ks i
             \<and> self_kdiff_step_bbox ks' ! i = self_kdiff_step_bbox ks ! i
             \<and> self_a ks' ! i = self_a ks ! i)"
proof -
  from assms obtain self1 ks where 1: "kdiff_reset step self = Inr self1" "self_kdiff self1 = Some ks"
    unfolding kdiff_custom_forward_def by (auto split: sum.splits option.splits)
  from assms 1 obtain ks1 r where 2: "kdiff_first_touch ff bcu step self1 ks x oc cc uc bbox_id bbox sigma = Inr (ks1, r)"
    unfolding kdiff_custom_forward_def by (auto split: sum.splits option.splits)
  note f1 = kdiff_first_touch_frame [OF 2]
  show ?thesis
  proof (cases r)
    case (Some ev)
    with assms 1 2 have "self' = self1\<lparr>self_kdiff := Some ks1\<rparr>"
      unfolding kdiff_custom_forward_def by (auto split: prod.splits)
    with 1 f1 show ?thesis by auto
  next
    case None
    with assms 1 2 obtain ks2 where 3: "kdiff_replay ff self1 ks1 x bbox_id sigma = Inr (ks2, events, x_out)"
      and "self' = self1\<lparr>self_kdiff := Some ks2\<rparr>"
      unfolding kdiff_custom_forward_def by (auto split: sum.splits prod.splits)
    with 1 f1 kdiff_replay_frame [OF 3] show ?thesis by auto
  qed
qed

lemma py_slice_take_drop:
  assumes "0 \<le> a" "0 \<le> n"
  shows "py_slice xs a (a + n) = take (nat n) (drop (nat a) xs)"
proof -
  have s: "py_slice_bound (length xs) a = min (length xs) (nat a)"
    using assms unfolding py_slice_bound_def by simp
  have e: "py_slice_bound (length xs) (a + n) = min (length xs) (nat a + nat n)"
    using assms unfolding py_slice_bound_def by (simp add: nat_add_distrib)
  show ?thesis
    unfolding py_slice_def s e Let_def
    by (cases "nat a \<le> length xs") (auto simp: min_def take_all)
qed

lemma kdiff_reset_props:
  assumes "kdiff_reset step self = Inr self1"
  shows "self_kdiff_step self1 = step \<and> self_is_edit_model self1 = self_is_edit_model self
       \<and> self_h self1 = self_h self \<and> self_w self1 = self_w self
       \<and> kdiff_reset step self1 = Inr self1"
  using assms unfolding kdiff_reset_def
  by (auto split: if_splits option.splits)


lemma kdiff_custom_forward_after_reset:
  assumes "kdiff_reset step self = Inr self1"
  shows "kdiff_custom_forward ff bcu step self x_tile oc cc uc bbox_id bbox sigma_in
         = kdiff_custom_forward ff bcu step self1 x_tile oc cc uc bbox_id bbox sigma_in"
  using kdiff_reset_props [OF assms] assms unfolding kdiff_custom_forward_def by simp

lemma first_call_ragged:
  fixes self1 :: "('v, 'p) tiled_diffusion"
  assumes "self_kdiff self1 = Some ks" "self_kdiff_step self1 = step"
    and "shape1 (self_real_tensor ks) \<noteq> shape1 (self_real_uncond ks)"
    and "bbox_id < length (self_kdiff_step_bbox ks)"
    and "self_kdiff_step_bbox ks ! bbox_id \<noteq> step"
    and "bbox_id < length (self_a ks)"
    and "self_a ks ! bbox_id = 0"
    and "self_is_edit_model self1 = Some False"
    and "reconstruct_custom_cond self1 step oc cc uc bbox = Inr (cl, tensor, uncond, img)"
  shows "kdiff_custom_forward ff bcu step self1 x_tile oc cc uc bbox_id bbox sigma_in
     = Inr (self1\<lparr>self_kdiff := Some
              (ks\<lparr>self_kdiff_step_bbox := (self_kdiff_step_bbox ks)[bbox_id := step],
                  self_tensor := (self_tensor ks)(bbox_id \<mapsto> tensor),
                  self_uncond := (self_uncond ks)(bbox_id \<mapsto> uncond),
                  self_image_cond_in := (self_image_cond_in ks)(bbox_id \<mapsto> img),
                  self_a := (self_a ks)[bbox_id := shape0 x_tile]\<rparr>)\<rparr>,
            [SetControlTensor bbox_id (if 0 < length tensor then shape0 x_tile else shape0 uncond),
             ForwardCall \<lparr>call_x = x_tile, call_sigma = sigma_in,
                c_crossattn = [if 0 < length tensor then take (length x_tile) tensor else uncond],
                c_concat = [img]\<rparr>],
            ff \<lparr>call_x = x_tile, call_sigma = sigma_in,
                c_crossattn = [if 0 < length tensor then take (length x_tile) tensor else uncond],
                c_concat = [img]\<rparr>)"
proof -
  have r: "kdiff_reset step self1 = Inr self1" using assms(2) unfolding kdiff_reset_def by simp
  define ks1 where "ks1 = ks\<lparr>self_kdiff_step_bbox := (self_kdiff_step_bbox ks)[bbox_id := step],
       self_tensor := (self_tensor ks)(bbox_id \<mapsto> tensor),
       self_uncond := (self_uncond ks)(bbox_id \<mapsto> uncond),
       self_image_cond_in := (self_image_cond_in ks)(bbox_id \<mapsto> img)\<rparr>"
  have ft: "kdiff_first_touch ff bcu step self1 ks x_tile oc cc uc bbox_id bbox sigma_in = Inr (ks1, None)"
    using assms(3,4,5) unfolding kdiff_first_touch_def assms(9) ks1_def by (simp add: Let_def)
  have sl: "py_slice tensor 0 (0 + shape0 x_tile) = take (length x_tile) (drop 0 tensor)"
    using py_slice_take_drop [of 0 "shape0 x_tile" tensor] by (simp add: shape0_def)
  have rpl: "kdiff_replay ff self1 ks1 x_tile bbox_id sigma_in
     = Inr (ks1\<lparr>self_a := (self_a ks)[bbox_id := shape0 x_tile]\<rparr>,
            [SetControlTensor bbox_id (if 0 < length tensor then shape0 x_tile else shape0 uncond),
             ForwardCall \<lparr>call_x = x_tile, call_sigma = sigma_in,
                c_crossattn = [if 0 < length tensor then take (length x_tile) tensor else uncond],
                c_concat = [img]\<rparr>],
            ff \<lparr>call_x = x_tile, call_sigma = sigma_in,
                c_crossattn = [if 0 < length tensor then take (length x_tile) tensor else uncond],
                c_concat = [img]\<rparr>)"
    using assms(6,7,8) sl
    unfolding kdiff_replay_def ks1_def
    by (auto simp: Let_def shape0_def)
  show ?thesis
    unfolding kdiff_custom_forward_def r sum.case assms(1) option.case ft prod.case rpl
    unfolding ks1_def by simp
qed

lemma first_call_fused:
  fixes self1 :: "('v, 'p) tiled_diffusion"
  assumes "self_kdiff self1 = Some ks" "self_kdiff_step self1 = step"
    and "shape1 (self_real_tensor ks) = shape1 (self_real_uncond ks)"
    and "bbox_id < length (self_kdiff_step_bbox ks)"
    and "self_kdiff_step_bbox ks ! bbox_id \<noteq> step"
    and "self_is_edit_model self1 = Some is_edit_model"
    and "reconstruct_custom_cond self1 step oc cc uc bbox = Inr (cl, tensor, uncond, img)"
    and "shape1 tensor = shape1 uncond" and "bcu"
  shows "kdiff_custom_forward ff bcu step self1 x_tile oc cc uc bbox_id bbox sigma_in
     = Inr (self1\<lparr>self_kdiff := Some
              (ks\<lparr>self_kdiff_step_bbox := (self_kdiff_step_bbox ks)[bbox_id := step]\<rparr>)\<rparr>,
            [SetControlTensor bbox_id (shape0 x_tile),
             ForwardCall \<lparr>call_x = x_tile, call_sigma = sigma_in,
                c_crossattn = [if \<not> is_edit_model then tensor @ uncond else tensor @ uncond @ uncond],
                c_concat = [img]\<rparr>],
            ff \<lparr>call_x = x_tile, call_sigma = sigma_in,
                c_crossattn = [if \<not> is_edit_model then tensor @ uncond else tensor @ uncond @ uncond],
                c_concat = [img]\<rparr>)"
proof -
  have r: "kdiff_reset step self1 = Inr self1" using assms(2) unfolding kdiff_reset_def by simp
  have ft: "kdiff_first_touch ff bcu step self1 ks x_tile oc cc uc bbox_id bbox sigma_in
     = Inr (ks\<lparr>self_kdiff_step_bbox := (self_kdiff_step_bbox ks)[bbox_id := step]\<rparr>,
            Some ([SetControlTensor bbox_id (shape0 x_tile),
             ForwardCall \<lparr>call_x = x_tile, call_sigma = sigma_in,
                c_crossattn = [if \<not> is_edit_model then tensor @ uncond else tensor @ uncond @ uncond],
                c_concat = [img]\<rparr>],
            ff \<lparr>call_x = x_tile, call_sigma = sigma_in,
                c_crossattn = [if \<not> is_edit_model then tensor @ uncond else tensor @ uncond @ uncond],
                c_concat = [img]\<rparr>))"
    using assms(3,4,5,6,8,9) unfolding kdiff_first_touch_def assms(7) by (simp add: Let_def)
  show ?thesis
    unfolding kdiff_custom_forward_def r sum.case assms(1) option.case ft prod.case by simp
qed


lemma replicate_update_same: "(replicate n x)[i := x] = replicate n x"
  by (induction n arbitrary: i) (auto split: nat.splits)

text \<open>
  Claim C9. The sampler's step differs from the step the object recorded last, and
  \<^verbatim>\<open>refresh_prompt\<close> has stored the global conditionings. Then the reset block of
  \<^verbatim>\<open>kdiff_custom_forward\<close> runs before anything else: it leaves the three caches
  \<^verbatim>\<open>self.tensor\<close>, \<^verbatim>\<open>self.uncond\<close> and \<^verbatim>\<open>self.image_cond_in\<close> empty, every marker
  \<^verbatim>\<open>self.kdiff_step_bbox[i]\<close> at \<open>-1\<close> and every cursor \<^verbatim>\<open>self.a[i]\<close> at \<open>0\<close>, and the call
  is the call on the object so reset. Whenever the call returns, the object is at the new
  step and every region other than the one of the call has no cache entry, marker \<open>-1\<close>
  and cursor \<open>0\<close>. And the call does return, with one invocation of the callback, for a
  step that is not negative, a region of the object and a sampler conditioning with its
  \<^verbatim>\<open>c_concat\<close> entry, when the global conditioning is ragged and the model is not an
  image-editing model, or when the global and the region's conditionings have equal token
  lengths and \<^verbatim>\<open>shared.batch_cond_uncond\<close> is set: the markers are then \<open>-1\<close> but for the
  region of the call, the cursors \<open>0\<close> but for the batch entries of this call in the ragged
  case, and the caches hold nothing but what this call stored for its region.
\<close>

theorem kdiff_new_step_resets:
  fixes self :: "('v, 'p) tiled_diffusion"
  assumes "self_kdiff_step self \<noteq> step"
    and "self_all_pos_cond self = Some all_pos_cond"
    and "self_all_neg_cond self = Some all_neg_cond"
  shows "(\<exists>ks. kdiff_reset step self = Inr (self\<lparr>self_kdiff_step := step, self_kdiff := Some ks\<rparr>)
          \<and> self_tensor ks = Map.empty \<and> self_uncond ks = Map.empty
          \<and> self_image_cond_in ks = Map.empty
          \<and> self_kdiff_step_bbox ks = replicate (length (self_custom_bboxes self)) (- 1)
          \<and> self_a ks = replicate (length (self_custom_bboxes self)) 0
          \<and> kdiff_custom_forward forward_func batch_cond_uncond step self x_tile original_cond
                custom_cond uncond bbox_id bbox sigma_in
              = kdiff_custom_forward forward_func batch_cond_uncond step
                  (self\<lparr>self_kdiff_step := step, self_kdiff := Some ks\<rparr>) x_tile original_cond
                  custom_cond uncond bbox_id bbox sigma_in)
      \<and> (\<forall>self' events x_out.
            kdiff_custom_forward forward_func batch_cond_uncond step self x_tile original_cond
              custom_cond uncond bbox_id bbox sigma_in = Inr (self', events, x_out)
            \<longrightarrow> self_kdiff_step self' = step
              \<and> (\<exists>ks'. self_kdiff self' = Some ks'
                   \<and> (\<forall>i. i \<noteq> bbox_id \<longrightarrow>
                         self_tensor ks' i = None \<and> self_uncond ks' i = None
                         \<and> self_image_cond_in ks' i = None
                         \<and> (i < length (self_custom_bboxes self) \<longrightarrow>
                              self_kdiff_step_bbox ks' ! i = - 1 \<and> self_a ks' ! i = 0))))
      \<and> (0 \<le> step \<and> bbox_id < length (self_custom_bboxes self) \<and> original_cond \<noteq> Dict []
           \<and> self_is_edit_model self = Some is_edit_model
           \<and> (shape1 (snd (reconstruct_multicond_batch all_pos_cond step))
                 \<noteq> shape1 (reconstruct_cond_batch all_neg_cond step) \<and> \<not> is_edit_model
               \<or> shape1 (snd (reconstruct_multicond_batch all_pos_cond step))
                 = shape1 (reconstruct_cond_batch all_neg_cond step)
                 \<and> shape1 (snd (reconstruct_multicond_batch custom_cond step))
                     = shape1 (reconstruct_cond_batch uncond step)
                 \<and> batch_cond_uncond)
          \<longrightarrow> (\<exists>self' events x_out ks'.
                kdiff_custom_forward forward_func batch_cond_uncond step self x_tile original_cond
                  custom_cond uncond bbox_id bbox sigma_in = Inr (self', events, x_out)
                \<and> self_kdiff_step self' = step \<and> self_kdiff self' = Some ks'
                \<and> self_kdiff_step_bbox ks'
                    = (replicate (length (self_custom_bboxes self)) (- 1))[bbox_id := step]
                \<and> self_a ks'
                    = (replicate (length (self_custom_bboxes self)) 0)
                        [bbox_id := (if shape1 (snd (reconstruct_multicond_batch all_pos_cond step))
                                          \<noteq> shape1 (reconstruct_cond_batch all_neg_cond step)
                                     then shape0 x_tile else 0)]
                \<and> (\<forall>i. i \<noteq> bbox_id \<longrightarrow>
                       self_tensor ks' i = None \<and> self_uncond ks' i = None
                       \<and> self_image_cond_in ks' i = None)
                \<and> self_tensor ks' bbox_id
                    = (if shape1 (snd (reconstruct_multicond_batch all_pos_cond step))
                            \<noteq> shape1 (reconstruct_cond_batch all_neg_cond step)
                       then Some (snd (reconstruct_multicond_batch custom_cond step)) else None)
                \<and> self_uncond ks' bbox_id
                    = (if shape1 (snd (reconstruct_multicond_batch all_pos_cond step))
                            \<noteq> shape1 (reconstruct_cond_batch all_neg_cond step)
                       then Some (reconstruct_cond_batch uncond step) else None)
                \<and> length (forward_calls events) = 1))"
proof -
  define n where "n = length (self_custom_bboxes self)"
  define ks :: "('v, 'p) kdiff_attrs" where "ks =
     \<lparr>self_kdiff_step_bbox = replicate n (- 1),
      self_tensor = Map.empty, self_uncond = Map.empty, self_image_cond_in = Map.empty,
      self_real_tensor = snd (reconstruct_multicond_batch all_pos_cond step),
      self_real_uncond = reconstruct_cond_batch all_neg_cond step,
      self_a = replicate n 0\<rparr>"
  define self1 where "self1 = self\<lparr>self_kdiff_step := step, self_kdiff := Some ks\<rparr>"
  have r: "kdiff_reset step self = Inr self1"
    using assms unfolding kdiff_reset_def self1_def ks_def n_def by simp
  note eq = kdiff_custom_forward_after_reset [OF r, of forward_func batch_cond_uncond x_tile
      original_cond custom_cond uncond bbox_id bbox sigma_in]
  have part1: "\<exists>ks. kdiff_reset step self = Inr (self\<lparr>self_kdiff_step := step, self_kdiff := Some ks\<rparr>)
          \<and> self_tensor ks = Map.empty \<and> self_uncond ks = Map.empty
          \<and> self_image_cond_in ks = Map.empty
          \<and> self_kdiff_step_bbox ks = replicate n (- 1)
          \<and> self_a ks = replicate n 0
          \<and> kdiff_custom_forward forward_func batch_cond_uncond step self x_tile original_cond
                custom_cond uncond bbox_id bbox sigma_in
              = kdiff_custom_forward forward_func batch_cond_uncond step
                  (self\<lparr>self_kdiff_step := step, self_kdiff := Some ks\<rparr>) x_tile original_cond
                  custom_cond uncond bbox_id bbox sigma_in"
    apply (rule exI [of _ ks])
    using r eq unfolding self1_def [symmetric]
    by (simp add: ks_def)
  have part2: "self_kdiff_step self' = step
              \<and> (\<exists>ks'. self_kdiff self' = Some ks'
                   \<and> (\<forall>i. i \<noteq> bbox_id \<longrightarrow>
                         self_tensor ks' i = None \<and> self_uncond ks' i = None
                         \<and> self_image_cond_in ks' i = None
                         \<and> (i < n \<longrightarrow>
                              self_kdiff_step_bbox ks' ! i = - 1 \<and> self_a ks' ! i = 0)))"
    if "kdiff_custom_forward forward_func batch_cond_uncond step self x_tile original_cond
              custom_cond uncond bbox_id bbox sigma_in = Inr (self', events, x_out)"
    for self' events x_out
  proof -
    from kdiff_custom_forward_frame [OF that] r obtain ks' where
      k: "self' = self1\<lparr>self_kdiff := Some ks'\<rparr>"
        "\<forall>i. i \<noteq> bbox_id \<longrightarrow>
             self_tensor ks' i = self_tensor ks i \<and> self_uncond ks' i = self_uncond ks i
             \<and> self_image_cond_in ks' i = self_image_cond_in ks i
             \<and> self_kdiff_step_bbox ks' ! i = self_kdiff_step_bbox ks ! i
             \<and> self_a ks' ! i = self_a ks ! i"
      unfolding self1_def by auto
    show ?thesis
      using k unfolding self1_def ks_def by auto
  qed
  have part3: "\<exists>self' events x_out ks'.
                kdiff_custom_forward forward_func batch_cond_uncond step self x_tile original_cond
                  custom_cond uncond bbox_id bbox sigma_in = Inr (self', events, x_out)
                \<and> self_kdiff_step self' = step \<and> self_kdiff self' = Some ks'
                \<and> self_kdiff_step_bbox ks' = (replicate n (- 1))[bbox_id := step]
                \<and> self_a ks'
                    = (replicate n 0)
                        [bbox_id := (if shape1 (snd (reconstruct_multicond_batch all_pos_cond step))
                                          \<noteq> shape1 (reconstruct_cond_batch all_neg_cond step)
                                     then shape0 x_tile else 0)]
                \<and> (\<forall>i. i \<noteq> bbox_id \<longrightarrow>
                       self_tensor ks' i = None \<and> self_uncond ks' i = None
                       \<and> self_image_cond_in ks' i = None)
                \<and> self_tensor ks' bbox_id
                    = (if shape1 (snd (reconstruct_multicond_batch all_pos_cond step))
                            \<noteq> shape1 (reconstruct_cond_batch all_neg_cond step)
                       then Some (snd (reconstruct_multicond_batch custom_cond step)) else None)
                \<and> self_uncond ks' bbox_id
                    = (if shape1 (snd (reconstruct_multicond_batch all_pos_cond step))
                            \<noteq> shape1 (reconstruct_cond_batch all_neg_cond step)
                       then Some (reconstruct_cond_batch uncond step) else None)
                \<and> length (forward_calls events) = 1"
    if h: "0 \<le> step" "bbox_id < n" "original_cond \<noteq> Dict []"
          "self_is_edit_model self = Some is_edit_model"
      and br: "shape1 (snd (reconstruct_multicond_batch all_pos_cond step))
                 \<noteq> shape1 (reconstruct_cond_batch all_neg_cond step) \<and> \<not> is_edit_model
               \<or> shape1 (snd (reconstruct_multicond_batch all_pos_cond step))
                 = shape1 (reconstruct_cond_batch all_neg_cond step)
                 \<and> shape1 (snd (reconstruct_multicond_batch custom_cond step))
                     = shape1 (reconstruct_cond_batch uncond step)
                 \<and> batch_cond_uncond"
  proof -
    from reconstruct_custom_cond_ok [OF h(3)] obtain img where
      rc: "reconstruct_custom_cond self1 step original_cond custom_cond uncond bbox =
             Inr (fst (reconstruct_multicond_batch custom_cond step),
                  snd (reconstruct_multicond_batch custom_cond step),
                  reconstruct_cond_batch uncond step, img)" by blast
    have k: "self_kdiff self1 = Some ks" "self_kdiff_step self1 = step"
      unfolding self1_def by simp_all
    have m: "bbox_id < length (self_kdiff_step_bbox ks)" "self_kdiff_step_bbox ks ! bbox_id \<noteq> step"
            "bbox_id < length (self_a ks)" "self_a ks ! bbox_id = 0"
      using h(1,2) unfolding ks_def by auto
    have e: "self_is_edit_model self1 = Some is_edit_model" using h(4) unfolding self1_def by simp
    show ?thesis
    proof (cases "shape1 (snd (reconstruct_multicond_batch all_pos_cond step))
                 \<noteq> shape1 (reconstruct_cond_batch all_neg_cond step)")
      case True
      with br have ne: "\<not> is_edit_model" by blast
      have rg: "shape1 (self_real_tensor ks) \<noteq> shape1 (self_real_uncond ks)"
        using True unfolding ks_def by simp
      from e ne have e': "self_is_edit_model self1 = Some False" by simp
      note c = first_call_ragged [OF k rg m e' rc, of forward_func batch_cond_uncond x_tile sigma_in]
      show ?thesis
        unfolding eq c using True h(2) unfolding self1_def ks_def
        by (simp add: list_update_swap)
    next
      case False
      with br have f: "shape1 (snd (reconstruct_multicond_batch custom_cond step))
                     = shape1 (reconstruct_cond_batch uncond step)" "batch_cond_uncond" by blast+
      have eqs: "shape1 (self_real_tensor ks) = shape1 (self_real_uncond ks)"
        using False unfolding ks_def by simp
      note c = first_call_fused [OF k eqs m(1,2) e rc f, of forward_func x_tile sigma_in]
      show ?thesis
        unfolding eq c using False h(2) unfolding self1_def ks_def
        by (simp add: replicate_update_same)
    qed
  qed
  show ?thesis
    using part1 part2 part3 unfolding n_def by blast
qed


text \<open>
  An instance: the example object with two regions has step 0 behind it, with caches for
  both regions and cursors 4 and 3; the first call of step 1, for region 0 with one batch
  entry, leaves nothing of region 1.
\<close>

theorem kdiff_new_step_resets_witness:
  "(case self_kdiff example_mid_step of
      None \<Rightarrow> False
    | Some ks \<Rightarrow> self_kdiff_step_bbox ks = [0, 0] \<and> self_a ks = [4, 3]
        \<and> self_tensor ks 1 \<noteq> None \<and> self_uncond ks 1 \<noteq> None)
   \<and> (\<exists>self' events x_out ks'.
         kdiff_custom_forward example_forward False 1 example_mid_step [1] (Dict [[[[5]]]])
           example_region_cond example_region_uncond 0 example_region [5] = Inr (self', events, x_out)
         \<and> self_kdiff_step self' = 1 \<and> self_kdiff self' = Some ks'
         \<and> self_kdiff_step_bbox ks' = [1, - 1] \<and> self_a ks' = [1, 0]
         \<and> self_tensor ks' 1 = None \<and> self_uncond ks' 1 = None \<and> self_image_cond_in ks' 1 = None
         \<and> self_tensor ks' 0 = Some [[10, 11], [12, 13]])"
proof -
  have pre: "(case self_kdiff example_mid_step of
      None \<Rightarrow> False
    | Some ks \<Rightarrow> self_kdiff_step_bbox ks = [0, 0] \<and> self_a ks = [4, 3]
        \<and> self_tensor ks 1 \<noteq> None \<and> self_uncond ks 1 \<noteq> None)"
    by (simp add: example_mid_step_def)
  have h1: "self_kdiff_step example_mid_step \<noteq> 1"
    by (simp add: example_mid_step_def)
  have h2: "self_all_pos_cond example_mid_step = Some example_cond"
    by (simp add: example_mid_step_def)
  have h3: "self_all_neg_cond example_mid_step = Some example_uncond3"
    by (simp add: example_mid_step_def)
  have a: "(0::int) \<le> 1 \<and> 0 < length (self_custom_bboxes example_mid_step)
           \<and> Dict [[[[5::nat]]]] \<noteq> Dict []
           \<and> self_is_edit_model example_mid_step = Some False
           \<and> (shape1 (snd (reconstruct_multicond_batch example_cond 1))
                 \<noteq> shape1 (reconstruct_cond_batch example_uncond3 1) \<and> \<not> False
               \<or> shape1 (snd (reconstruct_multicond_batch example_cond 1))
                 = shape1 (reconstruct_cond_batch example_uncond3 1)
                 \<and> shape1 (snd (reconstruct_multicond_batch example_region_cond 1))
                     = shape1 (reconstruct_cond_batch example_region_uncond 1)
                 \<and> False)"
    by (simp add: example_mid_step_def reconstruct_multicond_batch_def reconstruct_cond_batch_def
        example_cond_def example_uncond3_def shape1_def)
  from kdiff_new_step_resets [OF h1 h2 h3, of example_forward False "[1]" "Dict [[[[5]]]]"
      example_region_cond example_region_uncond 0 example_region "[5]" False] a
  have "\<exists>self' events x_out ks'.
         kdiff_custom_forward example_forward False 1 example_mid_step [1] (Dict [[[[5]]]])
           example_region_cond example_region_uncond 0 example_region [5] = Inr (self', events, x_out)
         \<and> self_kdiff_step self' = 1 \<and> self_kdiff self' = Some ks'
         \<and> self_kdiff_step_bbox ks' = (replicate (length (self_custom_bboxes example_mid_step)) (- 1))[0 := 1]
         \<and> self_a ks' = (replicate (length (self_custom_bboxes example_mid_step)) 0)
               [0 := (if shape1 (snd (reconstruct_multicond_batch example_cond 1))
                            \<noteq> shape1 (reconstruct_cond_batch example_uncond3 1)
                       then shape0 [1::int] else 0)]
         \<and> (\<forall>i. i \<noteq> 0 \<longrightarrow> self_tensor ks' i = None \<and> self_uncond ks' i = None
                       \<and> self_image_cond_in ks' i = None)
         \<and> self_tensor ks' 0
               = (if shape1 (snd (reconstruct_multicond_batch example_cond 1))
                            \<noteq> shape1 (reconstruct_cond_batch example_uncond3 1)
                  then Some (snd (reconstruct_multicond_batch example_region_cond 1)) else None)"
    by blast
  then obtain self' events x_out ks' where
    r: "kdiff_custom_forward example_forward False 1 example_mid_step [1] (Dict [[[[5]]]])
           example_region_cond example_region_uncond 0 example_region [5] = Inr (self', events, x_out)"
    and s: "self_kdiff_step self' = 1" and k: "self_kdiff self' = Some ks'"
    and m: "self_kdiff_step_bbox ks' = (replicate (length (self_custom_bboxes example_mid_step)) (- 1))[0 := 1]"
    and c: "self_a ks' = (replicate (length (self_custom_bboxes example_mid_step)) 0)
               [0 := (if shape1 (snd (reconstruct_multicond_batch example_cond 1))
                            \<noteq> shape1 (reconstruct_cond_batch example_uncond3 1)
                       then shape0 [1::int] else 0)]"
    and o: "\<forall>i. i \<noteq> 0 \<longrightarrow> self_tensor ks' i = None \<and> self_uncond ks' i = None
                       \<and> self_image_cond_in ks' i = None"
    and t: "self_tensor ks' 0
               = (if shape1 (snd (reconstruct_multicond_batch example_cond 1))
                            \<noteq> shape1 (reconstruct_cond_batch example_uncond3 1)
                  then Some (snd (reconstruct_multicond_batch example_region_cond 1)) else None)"
    by blast
  have m': "self_kdiff_step_bbox ks' = [1, - 1]"
    using m by (simp add: example_mid_step_def numeral_2_eq_2)
  have c': "self_a ks' = [1, 0]"
    using c by (simp add: example_mid_step_def reconstruct_multicond_batch_def reconstruct_cond_batch_def
        example_cond_def example_uncond3_def shape1_def shape0_def numeral_2_eq_2)
  have t': "self_tensor ks' 0 = Some [[10, 11], [12, 13]]"
    using t by (simp add: reconstruct_multicond_batch_def reconstruct_cond_batch_def
        example_cond_def example_uncond3_def example_region_cond_def shape1_def)
  have o': "self_tensor ks' 1 = None \<and> self_uncond ks' 1 = None \<and> self_image_cond_in ks' 1 = None"
    using o by simp
  from r s k m' c' o' t' have "\<exists>self' events x_out ks'.
         kdiff_custom_forward example_forward False 1 example_mid_step [1] (Dict [[[[5]]]])
           example_region_cond example_region_uncond 0 example_region [5] = Inr (self', events, x_out)
         \<and> self_kdiff_step self' = 1 \<and> self_kdiff self' = Some ks'
         \<and> self_kdiff_step_bbox ks' = [1, - 1] \<and> self_a ks' = [1, 0]
         \<and> self_tensor ks' 1 = None \<and> self_uncond ks' 1 = None \<and> self_image_cond_in ks' 1 = None
         \<and> self_tensor ks' 0 = Some [[10, 11], [12, 13]]"
    by blast
  with pre show ?thesis by blast
qed
subsection \<open>Samplers of the k-diffusion family: the incremental replay\<close>

lemma concat_slices: "concat (slices ns xs) = take (sum_list ns) xs"
proof (induction ns arbitrary: xs)
  case Nil
  then show ?case by simp
next
  case (Cons n ns)
  have "take (n + sum_list ns) xs = take n xs @ take (sum_list ns) (drop n xs)"
    by (simp add: take_add)
  with Cons show ?case by simp
qed

lemma map_length_slices:
  "sum_list ns \<le> length xs \<Longrightarrow> map length (slices ns xs) = ns"
  by (induction ns arbitrary: xs) auto

lemma consumed_append: "consumed (es @ fs) = consumed es @ consumed fs"
  by (induction es rule: consumed.induct) auto

lemma forward_calls_append: "forward_calls (es @ fs) = forward_calls es @ forward_calls fs"
  by (induction es rule: forward_calls.induct) auto

lemma consumed_forward_calls:
  "consumed events = concat (concat (map c_crossattn (forward_calls events)))"
  by (induction events rule: consumed.induct) auto

lemma replaying_cursor:
  "replaying step bbox_id tensor uncond n self \<Longrightarrow> cursor self bbox_id = Some (int n)"
  unfolding replaying_def cursor_def by (auto split: option.splits)

lemma replaying_step:
  fixes self :: "('v, 'p) tiled_diffusion"
  assumes "replaying step bbox_id tensor uncond n self"
  shows "\<exists>self' events x_out.
           kdiff_custom_forward ff bcu step self x_tile oc cc uc bbox_id bbox sigma_in
             = Inr (self', events, x_out)
           \<and> map c_crossattn (forward_calls events)
               = [[if n < length tensor then take (length x_tile) (drop n tensor) else uncond]]
           \<and> map call_x (forward_calls events) = [x_tile]
           \<and> replaying step bbox_id tensor uncond (n + length x_tile) self'"
proof -
  from assms obtain ks img where k: "self_kdiff self = Some ks"
    "self_kdiff_step self = step" "self_is_edit_model self = Some False"
    "bbox_id < length (self_kdiff_step_bbox ks)" "self_kdiff_step_bbox ks ! bbox_id = step"
    "self_tensor ks bbox_id = Some tensor" "self_uncond ks bbox_id = Some uncond"
    "self_image_cond_in ks bbox_id = Some img"
    "bbox_id < length (self_a ks)" "self_a ks ! bbox_id = int n"
    unfolding replaying_def by (auto split: option.splits)
  have r: "kdiff_reset step self = Inr self" using k(2) unfolding kdiff_reset_def by simp
  have ft: "kdiff_first_touch ff bcu step self ks x_tile oc cc uc bbox_id bbox sigma_in = Inr (ks, None)"
    using k(4,5) unfolding kdiff_first_touch_def by simp
  have sl: "py_slice tensor (int n) (int n + shape0 x_tile) = take (length x_tile) (drop n tensor)"
    using py_slice_take_drop [of "int n" "shape0 x_tile" tensor] by (simp add: shape0_def)
  define ks' where "ks' = ks\<lparr>self_a := (self_a ks)[bbox_id := int n + shape0 x_tile]\<rparr>"
  define call where "call =
     \<lparr>call_x = x_tile, call_sigma = sigma_in,
      c_crossattn = [if n < length tensor then take (length x_tile) (drop n tensor) else uncond],
      c_concat = [img]\<rparr>"
  define events where "events =
     [SetControlTensor bbox_id (if n < length tensor then shape0 x_tile else shape0 uncond),
      ForwardCall call]"
  have rp: "kdiff_replay ff self ks x_tile bbox_id sigma_in = Inr (ks', events, ff call)"
    using k(3,6,7,8,9,10) sl
    unfolding kdiff_replay_def ks'_def call_def events_def
    by (auto simp: Let_def shape0_def)
  have cf: "kdiff_custom_forward ff bcu step self x_tile oc cc uc bbox_id bbox sigma_in
             = Inr (self\<lparr>self_kdiff := Some ks'\<rparr>, events, ff call)"
    by (simp add: kdiff_custom_forward_def r ft k(1) rp)
  have c: "map c_crossattn (forward_calls events)
             = [[if n < length tensor then take (length x_tile) (drop n tensor) else uncond]]"
    unfolding events_def call_def by simp
  have f: "map call_x (forward_calls events) = [x_tile]"
    unfolding events_def call_def by simp
  have rep: "replaying step bbox_id tensor uncond (n + length x_tile) (self\<lparr>self_kdiff := Some ks'\<rparr>)"
    using k unfolding replaying_def ks'_def by (simp add: shape0_def)
  show ?thesis
    by (rule exI [of _ "self\<lparr>self_kdiff := Some ks'\<rparr>"], rule exI [of _ events],
        rule exI [of _ "ff call"]) (simp only: cf c f rep simp_thms)
qed

lemma untouched_step:
  fixes self :: "('v, 'p) tiled_diffusion"
  assumes "kdiff_reset step self = Inr self1"
    and "self_kdiff self1 = Some ks"
    and "shape1 (self_real_tensor ks) \<noteq> shape1 (self_real_uncond ks)"
    and "bbox_id < length (self_kdiff_step_bbox ks)"
    and "self_kdiff_step_bbox ks ! bbox_id \<noteq> step"
    and "bbox_id < length (self_a ks)"
    and "self_a ks ! bbox_id = 0"
    and "self_is_edit_model self = Some False"
    and "oc \<noteq> Dict []"
    and "tensor = snd (reconstruct_multicond_batch cc step)"
    and "uncond = reconstruct_cond_batch uc step"
  shows "\<exists>self' events x_out.
           kdiff_custom_forward ff bcu step self x_tile oc cc uc bbox_id bbox sigma_in
             = Inr (self', events, x_out)
           \<and> map c_crossattn (forward_calls events)
               = [[if 0 < length tensor then take (length x_tile) tensor else uncond]]
           \<and> map call_x (forward_calls events) = [x_tile]
           \<and> replaying step bbox_id tensor uncond (length x_tile) self'"
proof -
  note rp = kdiff_reset_props [OF assms(1)]
  from reconstruct_custom_cond_ok [OF assms(9)] obtain img where
    rc: "reconstruct_custom_cond self1 step oc cc uc bbox =
           Inr (fst (reconstruct_multicond_batch cc step), tensor, uncond, img)"
    unfolding assms(10,11) by blast
  have e: "self_is_edit_model self1 = Some False" using rp assms(8) by simp
  have s: "self_kdiff_step self1 = step" using rp by simp
  note fc = first_call_ragged [OF assms(2) s assms(3-7) e rc, of ff bcu x_tile sigma_in]
  note cf = kdiff_custom_forward_after_reset [OF assms(1), of ff bcu x_tile oc cc uc bbox_id bbox sigma_in]
  define self' where "self' = self1\<lparr>self_kdiff := Some
              (ks\<lparr>self_kdiff_step_bbox := (self_kdiff_step_bbox ks)[bbox_id := step],
                  self_tensor := (self_tensor ks)(bbox_id \<mapsto> tensor),
                  self_uncond := (self_uncond ks)(bbox_id \<mapsto> uncond),
                  self_image_cond_in := (self_image_cond_in ks)(bbox_id \<mapsto> img),
                  self_a := (self_a ks)[bbox_id := shape0 x_tile]\<rparr>)\<rparr>"
  have rep: "replaying step bbox_id tensor uncond (length x_tile) self'"
    using s e assms(4,6) unfolding replaying_def self'_def by (simp add: shape0_def)
  show ?thesis
    unfolding cf fc self'_def [symmetric]
    using rep by simp
qed

lemma kdiff_calls_Cons_ok:
  assumes "kdiff_custom_forward ff bcu step self x_tile oc cc uc bbox_id bbox sigma_in = Inr (self1, ev1, x_out)"
    and "kdiff_calls ff bcu step self1 oc cc uc bbox_id bbox rest = Inr (self2, ev2)"
  shows "kdiff_calls ff bcu step self oc cc uc bbox_id bbox ((x_tile, sigma_in) # rest) = Inr (self2, ev1 @ ev2)"
  using assms by simp

lemma replaying_run:
  fixes self :: "('v, 'p) tiled_diffusion"
  assumes "replaying step bbox_id tensor uncond n self"
    and "list_all (\<lambda>c. fst c \<noteq> []) calls"
    and "n + sum_list (map (\<lambda>c. length (fst c)) calls) \<le> length tensor"
  shows "\<exists>self' events.
           kdiff_calls ff bcu step self oc cc uc bbox_id bbox calls = Inr (self', events)
           \<and> map c_crossattn (forward_calls events)
               = map (\<lambda>s. [s]) (slices (map (\<lambda>c. length (fst c)) calls) (drop n tensor))
           \<and> map call_x (forward_calls events) = map fst calls
           \<and> replaying step bbox_id tensor uncond (n + sum_list (map (\<lambda>c. length (fst c)) calls)) self'"
  using assms
proof (induction calls arbitrary: n self)
  case Nil
  then show ?case by simp
next
  case (Cons c calls)
  obtain x_tile sigma_in where c: "c = (x_tile, sigma_in)" by (cases c)
  from Cons.prems(2) c have ne: "x_tile \<noteq> []" and rest: "list_all (\<lambda>c. fst c \<noteq> []) calls" by auto
  from ne have pos: "0 < length x_tile" by simp
  from Cons.prems(3) c
  have le: "(n + length x_tile) + sum_list (map (\<lambda>c. length (fst c)) calls) \<le> length tensor"
    by (simp add: add.assoc)
  with pos have lt: "n < length tensor" by linarith
  from replaying_step [OF Cons.prems(1), of ff bcu x_tile oc cc uc bbox sigma_in] lt
  obtain self1 ev1 x_out where
    1: "kdiff_custom_forward ff bcu step self x_tile oc cc uc bbox_id bbox sigma_in = Inr (self1, ev1, x_out)"
       "map c_crossattn (forward_calls ev1) = [[take (length x_tile) (drop n tensor)]]"
       "map call_x (forward_calls ev1) = [x_tile]"
       "replaying step bbox_id tensor uncond (n + length x_tile) self1"
    by auto
  from Cons.IH [OF 1(4) rest le] obtain self2 ev2 where
    2: "kdiff_calls ff bcu step self1 oc cc uc bbox_id bbox calls = Inr (self2, ev2)"
       "map c_crossattn (forward_calls ev2)
          = map (\<lambda>s. [s]) (slices (map (\<lambda>c. length (fst c)) calls) (drop (n + length x_tile) tensor))"
       "map call_x (forward_calls ev2) = map fst calls"
       "replaying step bbox_id tensor uncond (n + length x_tile + sum_list (map (\<lambda>c. length (fst c)) calls)) self2"
    by blast
  have d: "drop (length x_tile) (drop n tensor) = drop (n + length x_tile) tensor"
    by (simp add: add.commute)
  show ?case
    unfolding c
    using kdiff_calls_Cons_ok [OF 1(1) 2(1)] 1(2,3) 2(2,3,4) d
    by (simp add: forward_calls_append add.assoc)
qed

lemma cond_phase:
  fixes self :: "('v, 'p) tiled_diffusion"
  assumes "kdiff_reset step self = Inr self1"
    and "self_kdiff self1 = Some ks"
    and "shape1 (self_real_tensor ks) \<noteq> shape1 (self_real_uncond ks)"
    and "bbox_id < length (self_kdiff_step_bbox ks)"
    and "self_kdiff_step_bbox ks ! bbox_id \<noteq> step"
    and "bbox_id < length (self_a ks)"
    and "self_a ks ! bbox_id = 0"
    and "self_is_edit_model self = Some False"
    and "oc \<noteq> Dict []"
    and "tensor = snd (reconstruct_multicond_batch cc step)"
    and "uncond = reconstruct_cond_batch uc step"
    and "list_all (\<lambda>c. fst c \<noteq> []) calls"
    and "sum_list (map (\<lambda>c. length (fst c)) calls) \<le> length tensor"
    and "calls \<noteq> []"
  shows "\<exists>self' events.
           kdiff_calls ff bcu step self oc cc uc bbox_id bbox calls = Inr (self', events)
           \<and> map c_crossattn (forward_calls events)
               = map (\<lambda>s. [s]) (slices (map (\<lambda>c. length (fst c)) calls) tensor)
           \<and> map call_x (forward_calls events) = map fst calls
           \<and> replaying step bbox_id tensor uncond (sum_list (map (\<lambda>c. length (fst c)) calls)) self'"
proof -
  from assms(14) obtain c rest where Cons: "calls = c # rest" by (cases calls) auto
  obtain x_tile sigma_in where c: "c = (x_tile, sigma_in)" by (cases c)
  from assms(12) Cons c have ne: "0 < length x_tile" and rest: "list_all (\<lambda>c. fst c \<noteq> []) rest"
    by auto
  from assms(13) Cons c have le: "length x_tile + sum_list (map (\<lambda>c. length (fst c)) rest) \<le> length tensor"
    by simp
  with ne have pos: "0 < length tensor" by linarith
  from untouched_step [OF assms(1-11), of ff bcu x_tile bbox sigma_in] pos obtain s1 ev1 x_out where
    1: "kdiff_custom_forward ff bcu step self x_tile oc cc uc bbox_id bbox sigma_in = Inr (s1, ev1, x_out)"
       "map c_crossattn (forward_calls ev1) = [[take (length x_tile) tensor]]"
       "map call_x (forward_calls ev1) = [x_tile]"
       "replaying step bbox_id tensor uncond (length x_tile) s1"
    by auto
  from replaying_run [OF 1(4) rest le, of ff bcu oc cc uc bbox]
  obtain s2 ev2 where
    2: "kdiff_calls ff bcu step s1 oc cc uc bbox_id bbox rest = Inr (s2, ev2)"
       "map c_crossattn (forward_calls ev2)
          = map (\<lambda>s. [s]) (slices (map (\<lambda>c. length (fst c)) rest) (drop (length x_tile) tensor))"
       "map call_x (forward_calls ev2) = map fst rest"
       "replaying step bbox_id tensor uncond (length x_tile + sum_list (map (\<lambda>c. length (fst c)) rest)) s2"
    by blast
  show ?thesis
    unfolding Cons c
    using kdiff_calls_Cons_ok [OF 1(1) 2(1)] 1(2,3) 2(2,3,4)
    by (simp add: forward_calls_append)
qed

lemma kdiff_calls_append_ok:
  assumes "kdiff_calls ff bcu step self oc cc uc bbox_id bbox xs = Inr (self1, ev1)"
    and "kdiff_calls ff bcu step self1 oc cc uc bbox_id bbox ys = Inr (self2, ev2)"
  shows "kdiff_calls ff bcu step self oc cc uc bbox_id bbox (xs @ ys) = Inr (self2, ev1 @ ev2)"
  using assms
proof (induction xs arbitrary: self ev1)
  case Nil
  then show ?case by simp
next
  case (Cons c xs)
  obtain x_tile sigma_in where c: "c = (x_tile, sigma_in)" by (cases c)
  from Cons.prems(1) obtain s' e' x_out e'' where
    1: "kdiff_custom_forward ff bcu step self x_tile oc cc uc bbox_id bbox sigma_in = Inr (s', e', x_out)"
    and 2: "kdiff_calls ff bcu step s' oc cc uc bbox_id bbox xs = Inr (self1, e'')"
    and 3: "ev1 = e' @ e''"
    unfolding c by (auto split: sum.splits prod.splits)
  from Cons.IH [OF 2 Cons.prems(2)] 1 3 show ?case unfolding c by simp
qed

lemma kdiff_calls_single:
  assumes "kdiff_custom_forward ff bcu step self x_tile oc cc uc bbox_id bbox sigma_in = Inr (self1, ev1, x_out)"
  shows "kdiff_calls ff bcu step self oc cc uc bbox_id bbox [(x_tile, sigma_in)] = Inr (self1, ev1)"
  using assms by simp

text \<open>
  Claim C1, as amended. Ragged global conditioning, a model that is not an image-editing
  model, and a region that no call has touched in the step: in the object that the reset
  block of lines 269 to 279 leaves, the region's marker is not the step and its cursor is
  \<open>0\<close>; a new step makes every region such a region, whatever the object held before. Let
  the region's conditioning reconstruct to \<open>k\<close> conditional and \<open>m\<close> unconditional
  entries. If the sampler makes calls with non-empty tiles whose batch sizes add up to \<open>k\<close>,
  and then one more call, then every call succeeds and invokes the callback once, with the
  tile of that call. The conditional calls receive, in order, the slices of the conditional
  tensor of the lengths of their tiles, which together are the \<open>k\<close> entries, each once;
  after each of them the cursor \<^verbatim>\<open>self.a[bbox_id]\<close> is the number of entries handed out so
  far. The last call receives the whole unconditional tensor, all \<open>m\<close> entries at once, and
  leaves the cursor at \<open>k\<close> plus the size of its tile.
\<close>

theorem kdiff_replay_consumes_cond_then_uncond:
  fixes self :: "('v, 'p) tiled_diffusion"
  assumes "kdiff_reset step self = Inr self1"
    and "self_kdiff self1 = Some ks"
    and "shape1 (self_real_tensor ks) \<noteq> shape1 (self_real_uncond ks)"
    and "bbox_id < length (self_kdiff_step_bbox ks)"
    and "self_kdiff_step_bbox ks ! bbox_id \<noteq> step"
    and "bbox_id < length (self_a ks)"
    and "self_a ks ! bbox_id = 0"
    and "self_is_edit_model self = Some False"
    and "original_cond \<noteq> Dict []"
    and "list_all (\<lambda>c. fst c \<noteq> []) calls"
    and "sum_list (map (\<lambda>c. length (fst c)) calls)
           = length (snd (reconstruct_multicond_batch custom_cond step))"
  shows "(\<exists>self' events.
           kdiff_calls forward_func batch_cond_uncond step self original_cond custom_cond uncond
               bbox_id bbox (calls @ [(x_last, sigma_last)]) = Inr (self', events)
           \<and> map c_crossattn (forward_calls events)
               = map (\<lambda>s. [s]) (slices (map (\<lambda>c. length (fst c)) calls)
                                   (snd (reconstruct_multicond_batch custom_cond step)))
                 @ [[reconstruct_cond_batch uncond step]]
           \<and> map call_x (forward_calls events) = map fst calls @ [x_last]
           \<and> consumed events
               = snd (reconstruct_multicond_batch custom_cond step) @ reconstruct_cond_batch uncond step
           \<and> length (forward_calls events) = length calls + 1
           \<and> cursor self' bbox_id
               = Some (int (length (snd (reconstruct_multicond_batch custom_cond step)) + length x_last)))
       \<and> map length (slices (map (\<lambda>c. length (fst c)) calls)
                        (snd (reconstruct_multicond_batch custom_cond step)))
           = map (\<lambda>c. length (fst c)) calls
       \<and> concat (slices (map (\<lambda>c. length (fst c)) calls)
                    (snd (reconstruct_multicond_batch custom_cond step)))
           = snd (reconstruct_multicond_batch custom_cond step)
       \<and> (\<forall>made rest. calls = made @ rest \<and> made \<noteq> [] \<longrightarrow>
            (\<exists>self' events.
               kdiff_calls forward_func batch_cond_uncond step self original_cond custom_cond uncond
                   bbox_id bbox made = Inr (self', events)
               \<and> cursor self' bbox_id = Some (int (sum_list (map (\<lambda>c. length (fst c)) made)))))"
proof -
  define tensor where "tensor = snd (reconstruct_multicond_batch custom_cond step)"
  define unc where "unc = reconstruct_cond_batch uncond step"
  define sizes where "sizes = map (\<lambda>c. length (fst c)) calls"
  have sum: "sum_list sizes = length tensor"
    using assms(11) unfolding sizes_def tensor_def .
  note us = untouched_step [OF assms(1-9) tensor_def unc_def, of forward_func batch_cond_uncond _ bbox]
  note cp = cond_phase [OF assms(1-9) tensor_def unc_def, of _ forward_func batch_cond_uncond bbox]
  have lens: "map length (slices sizes tensor) = sizes"
    using sum by (simp add: map_length_slices)
  have cat: "concat (slices sizes tensor) = tensor"
    using sum by (simp add: concat_slices)
  have pre: "\<exists>self' events.
               kdiff_calls forward_func batch_cond_uncond step self original_cond custom_cond uncond
                   bbox_id bbox made = Inr (self', events)
               \<and> cursor self' bbox_id = Some (int (sum_list (map (\<lambda>c. length (fst c)) made)))"
    if "calls = made @ rest" "made \<noteq> []" for made rest
  proof -
    from assms(10) that(1) have ne: "list_all (\<lambda>c. fst c \<noteq> []) made" by simp
    from sum that(1) have le: "sum_list (map (\<lambda>c. length (fst c)) made) \<le> length tensor"
      unfolding sizes_def by simp
    from cp [OF ne le that(2)] replaying_cursor show ?thesis by blast
  qed
  have "\<exists>self2 ev.
          kdiff_calls forward_func batch_cond_uncond step self original_cond custom_cond uncond
               bbox_id bbox calls = Inr (self2, ev)
          \<and> map c_crossattn (forward_calls ev) = map (\<lambda>s. [s]) (slices sizes tensor)
          \<and> map call_x (forward_calls ev) = map fst calls
          \<and> (calls = [] \<and> self2 = self \<or> replaying step bbox_id tensor unc (length tensor) self2)"
  proof (cases "calls = []")
    case True
    then show ?thesis unfolding sizes_def by simp
  next
    case False
    from sum have le: "sum_list (map (\<lambda>c. length (fst c)) calls) \<le> length tensor"
      unfolding sizes_def by simp
    from cp [OF assms(10) le False] sum show ?thesis unfolding sizes_def by auto
  qed
  then obtain self2 ev where
    A: "kdiff_calls forward_func batch_cond_uncond step self original_cond custom_cond uncond
               bbox_id bbox calls = Inr (self2, ev)"
       "map c_crossattn (forward_calls ev) = map (\<lambda>s. [s]) (slices sizes tensor)"
       "map call_x (forward_calls ev) = map fst calls"
       "calls = [] \<and> self2 = self \<or> replaying step bbox_id tensor unc (length tensor) self2"
    by blast
  have "\<exists>self3 ev3 x_out.
          kdiff_custom_forward forward_func batch_cond_uncond step self2 x_last original_cond custom_cond
            uncond bbox_id bbox sigma_last = Inr (self3, ev3, x_out)
          \<and> map c_crossattn (forward_calls ev3) = [[unc]]
          \<and> map call_x (forward_calls ev3) = [x_last]
          \<and> replaying step bbox_id tensor unc (length tensor + length x_last) self3"
  proof (cases "calls = [] \<and> self2 = self")
    case True
    with sum have "length tensor = 0" unfolding sizes_def by simp
    with us [of x_last sigma_last] True show ?thesis by auto
  next
    case False
    with A(4) have "replaying step bbox_id tensor unc (length tensor) self2" by blast
    from replaying_step [OF this, of forward_func batch_cond_uncond x_last original_cond custom_cond
        uncond bbox sigma_last]
    show ?thesis by auto
  qed
  then obtain self3 ev3 x_out where
    B: "kdiff_custom_forward forward_func batch_cond_uncond step self2 x_last original_cond custom_cond
            uncond bbox_id bbox sigma_last = Inr (self3, ev3, x_out)"
       "map c_crossattn (forward_calls ev3) = [[unc]]"
       "map call_x (forward_calls ev3) = [x_last]"
       "replaying step bbox_id tensor unc (length tensor + length x_last) self3"
    by (elim exE conjE)
  note run = kdiff_calls_append_ok [OF A(1) kdiff_calls_single [OF B(1)]]
  have x: "map c_crossattn (forward_calls (ev @ ev3)) = map (\<lambda>s. [s]) (slices sizes tensor) @ [[unc]]"
    using A(2) B(2) by (simp add: forward_calls_append)
  have y: "map call_x (forward_calls (ev @ ev3)) = map fst calls @ [x_last]"
    using A(3) B(3) by (simp add: forward_calls_append)
  have "concat (concat (map (\<lambda>s. [s]) (slices sizes tensor))) = concat (slices sizes tensor)"
    by (simp add: concat_map_singleton)
  with x cat have z: "consumed (ev @ ev3) = tensor @ unc"
    by (simp add: consumed_forward_calls)
  have "length (map call_x (forward_calls (ev @ ev3))) = length calls + 1"
    unfolding y by simp
  then have l: "length (forward_calls (ev @ ev3)) = length calls + 1" by simp
  note cu = replaying_cursor [OF B(4)]
  from run x y z l cu have main: "\<exists>self' events.
           kdiff_calls forward_func batch_cond_uncond step self original_cond custom_cond uncond
               bbox_id bbox (calls @ [(x_last, sigma_last)]) = Inr (self', events)
           \<and> map c_crossattn (forward_calls events) = map (\<lambda>s. [s]) (slices sizes tensor) @ [[unc]]
           \<and> map call_x (forward_calls events) = map fst calls @ [x_last]
           \<and> consumed events = tensor @ unc
           \<and> length (forward_calls events) = length calls + 1
           \<and> cursor self' bbox_id = Some (int (length tensor + length x_last))"
    by blast
  from main lens cat pre show ?thesis
    unfolding tensor_def unc_def sizes_def by blast
qed

text \<open>
  The claim as it was stated lets the unconditional part, too, come in several calls.
  With \<open>k = 2\<close> and \<open>m = 2\<close> and batch sizes 2, 1 and 1 the source hands the whole
  unconditional tensor to the callback in the second call and again in the third.
\<close>

theorem kdiff_uncond_replayed_twice:
  "map_sum id (consumed \<circ> snd)
     (kdiff_calls example_forward False 0 example_sampling (Dict [[[[5]]]]) example_region_cond
        example_region_uncond 0 example_region [([1, 2], [5, 5]), ([3], [5]), ([4], [5])])
   = Inr [[10, 11], [12, 13], [20, 21, 22], [23, 24, 25], [20, 21, 22], [23, 24, 25]]"
  by code_simp


text \<open>
  An instance: the example object with two regions enters step 1 with the cursor of
  region 1 at 3 from the step before; batch sizes 1 and 1 for the two conditional entries,
  then a call of size 2.
\<close>

theorem kdiff_replay_consumes_cond_then_uncond_witness:
  "cursor example_mid_step 1 = Some 3
   \<and> map_sum id (\<lambda>r. (map c_crossattn (forward_calls (snd r)), map call_x (forward_calls (snd r)),
                       consumed (snd r), cursor (fst r) 1))
       (kdiff_calls example_forward False 1 example_mid_step (Dict [[[[5]]]]) example_region_cond
          example_region_uncond 1 example_region ([([1], [5]), ([2], [5])] @ [([3, 4], [5, 5])]))
     = Inr ([[[[10, 11]]], [[[12, 13]]], [[[20, 21, 22], [23, 24, 25]]]],
            [[1], [2], [3, 4]],
            [[10, 11], [12, 13], [20, 21, 22], [23, 24, 25]],
            Some 4)
   \<and> map_sum id (\<lambda>r. cursor (fst r) 1)
       (kdiff_calls example_forward False 1 example_mid_step (Dict [[[[5]]]]) example_region_cond
          example_region_uncond 1 example_region [([1], [5])])
     = Inr (Some 1)"
proof -
  define ks :: "(nat, nat) kdiff_attrs" where "ks =
     \<lparr>self_kdiff_step_bbox = [- 1, - 1], self_tensor = Map.empty, self_uncond = Map.empty,
      self_image_cond_in = Map.empty, self_real_tensor = [[10, 11]],
      self_real_uncond = [[20, 21, 22]], self_a = [0, 0]\<rparr>"
  define self1 where "self1 = example_mid_step\<lparr>self_kdiff_step := 1, self_kdiff := Some ks\<rparr>"
  have c0: "cursor example_mid_step 1 = Some 3"
    by (simp add: cursor_def example_mid_step_def)
  have h1: "kdiff_reset 1 example_mid_step = Inr self1"
    unfolding self1_def ks_def
    by (simp add: kdiff_reset_def example_mid_step_def example_self_def example_cond_def
        example_uncond3_def reconstruct_multicond_batch_def reconstruct_cond_batch_def)
  have h2: "self_kdiff self1 = Some ks" unfolding self1_def by simp
  have h3: "shape1 (self_real_tensor ks) \<noteq> shape1 (self_real_uncond ks)"
    unfolding ks_def by (simp add: shape1_def)
  have h4: "1 < length (self_kdiff_step_bbox ks)" unfolding ks_def by simp
  have h5: "self_kdiff_step_bbox ks ! 1 \<noteq> 1" unfolding ks_def by simp
  have h6: "1 < length (self_a ks)" unfolding ks_def by simp
  have h7: "self_a ks ! 1 = 0" unfolding ks_def by simp
  have h8: "self_is_edit_model example_mid_step = Some False"
    by (simp add: example_mid_step_def)
  have h9: "Dict [[[[5::nat]]]] \<noteq> Dict []" by simp
  have h10: "list_all (\<lambda>c. fst c \<noteq> []) [([1::int], [5::int]), ([2], [5])]" by simp
  have h11: "sum_list (map (\<lambda>c. length (fst c)) [([1::int], [5::int]), ([2], [5])])
           = length (snd (reconstruct_multicond_batch example_region_cond 1))"
    by (simp add: reconstruct_multicond_batch_def example_region_cond_def)
  note t = kdiff_replay_consumes_cond_then_uncond [OF h1 h2 h3 h4 h5 h6 h7 h8 h9 h10 h11,
      of example_forward False example_region_uncond example_region "[3, 4]" "[5, 5]"]
  from t obtain self' events where
    r: "kdiff_calls example_forward False 1 example_mid_step (Dict [[[[5]]]]) example_region_cond
          example_region_uncond 1 example_region ([([1], [5]), ([2], [5])] @ [([3, 4], [5, 5])])
        = Inr (self', events)"
    and x: "map c_crossattn (forward_calls events)
               = map (\<lambda>s. [s]) (slices (map (\<lambda>c. length (fst c)) [([1::int], [5::int]), ([2], [5])])
                                   (snd (reconstruct_multicond_batch example_region_cond 1)))
                 @ [[reconstruct_cond_batch example_region_uncond 1]]"
    and y: "map call_x (forward_calls events) = map fst [([1::int], [5::int]), ([2], [5])] @ [[3, 4]]"
    and z: "consumed events
               = snd (reconstruct_multicond_batch example_region_cond 1)
                 @ reconstruct_cond_batch example_region_uncond 1"
    and c: "cursor self' 1
               = Some (int (length (snd (reconstruct_multicond_batch example_region_cond 1))
                            + length [3::int, 4]))"
    by (elim exE conjE)
  have x': "map c_crossattn (forward_calls events)
              = [[[[10, 11]]], [[[12, 13]]], [[[20, 21, 22], [23, 24, 25]]]]"
    unfolding x
    by (simp add: reconstruct_multicond_batch_def reconstruct_cond_batch_def
        example_region_cond_def example_region_uncond_def)
  have y': "map call_x (forward_calls events) = [[1], [2], [3, 4]]"
    unfolding y by simp
  have z': "consumed events = [[10, 11], [12, 13], [20, 21, 22], [23, 24, 25]]"
    unfolding z
    by (simp add: reconstruct_multicond_batch_def reconstruct_cond_batch_def
        example_region_cond_def example_region_uncond_def)
  have c': "cursor self' 1 = Some 4"
    unfolding c
    by (simp add: reconstruct_multicond_batch_def example_region_cond_def)
  have full: "map_sum id (\<lambda>r. (map c_crossattn (forward_calls (snd r)), map call_x (forward_calls (snd r)),
                       consumed (snd r), cursor (fst r) 1))
       (kdiff_calls example_forward False 1 example_mid_step (Dict [[[[5]]]]) example_region_cond
          example_region_uncond 1 example_region ([([1], [5]), ([2], [5])] @ [([3, 4], [5, 5])]))
     = Inr ([[[[10, 11]]], [[[12, 13]]], [[[20, 21, 22], [23, 24, 25]]]],
            [[1], [2], [3, 4]],
            [[10, 11], [12, 13], [20, 21, 22], [23, 24, 25]],
            Some 4)"
    unfolding r using x' y' z' c' by simp
  from t have "\<forall>made rest. [([1::int], [5::int]), ([2], [5])] = made @ rest \<and> made \<noteq> [] \<longrightarrow>
            (\<exists>self' events.
               kdiff_calls example_forward False 1 example_mid_step (Dict [[[[5]]]]) example_region_cond
                   example_region_uncond 1 example_region made = Inr (self', events)
               \<and> cursor self' 1 = Some (int (sum_list (map (\<lambda>c. length (fst c)) made))))"
    by (elim conjE)
  then have "[([1::int], [5::int]), ([2], [5])] = [([1], [5])] @ [([2], [5])] \<and> [([1::int], [5::int])] \<noteq> [] \<longrightarrow>
            (\<exists>self' events.
               kdiff_calls example_forward False 1 example_mid_step (Dict [[[[5]]]]) example_region_cond
                   example_region_uncond 1 example_region [([1], [5])] = Inr (self', events)
               \<and> cursor self' 1 = Some (int (sum_list (map (\<lambda>c. length (fst c)) [([1::int], [5::int])]))))"
    by (elim allE)
  then obtain self2 events2 where
    r2: "kdiff_calls example_forward False 1 example_mid_step (Dict [[[[5]]]]) example_region_cond
                   example_region_uncond 1 example_region [([1], [5])] = Inr (self2, events2)"
    and c2: "cursor self2 1 = Some (int (sum_list (map (\<lambda>c. length (fst c)) [([1::int], [5::int])])))"
    by auto
  have first: "map_sum id (\<lambda>r. cursor (fst r) 1)
       (kdiff_calls example_forward False 1 example_mid_step (Dict [[[[5]]]]) example_region_cond
          example_region_uncond 1 example_region [([1], [5])])
     = Inr (Some 1)"
    unfolding r2 using c2 by simp
  from c0 full first show ?thesis by (intro conjI)
qed

end
